theory Spec2Isabelle
  imports Complex_Main "HOL-Library.AList" "HOL-Library.Sublist"
begin

section \<open>Values of the host language\<close>

text \<open>
  The widget and its helper library are JavaScript. The values that reach the code under
  study are \<open>undefined\<close>, \<open>null\<close>, integers, strings and objects. An object is a bag of
  properties (an association list, the first binding of a key counts) together with the
  class name that \<open>Object.prototype.toString\<close> prints for it (\<open>Object\<close> for an object
  literal, \<open>HTMLLIElement\<close> for a list item element, and so on). The bag holds what
  \<open>first[second]\<close> reads from the object, whether the property is the object's own or
  inherited; a method is read like any other property and is an object again (of class
  \<open>Function\<close>). A key that the bag leaves out reads \<open>undefined\<close>: an object that is written
  down here without the members of its prototype is modelled faithfully at every key
  but those. Objects are trees: the objects below an element
  (its style declaration, its children) are reached through that element only, so an
  in-place write below an element is a write into the tree.

  Not modelled: booleans and fractional numbers as values; the call of a method held in a
  property (of the values here only a string is given its method \<open>includes\<close>); the
  members that a string or a number inherits from its prototype; properties that cannot be
  written, or whose write does more than store the value (every property of an object
  is a plain writable one); and host objects with a string conversion of their own
  (anchor elements).
\<close>

datatype error = TypeError

datatype jsval =
    Undefined
  | Null
  | Num int
  | Str string
  | Obj string "(string \<times> jsval) list"

definition bindE :: "error + 'a \<Rightarrow> ('a \<Rightarrow> error + 'b) \<Rightarrow> error + 'b" where
  "bindE m f = (case m of Inl e \<Rightarrow> Inl e | Inr x \<Rightarrow> f x)"

text \<open>\<open>typeof value === 'string'\<close> (\<open>isString\<close>, the only predicate \<open>setValue\<close> hands to \<open>validator\<close>).\<close>

fun isString :: "jsval \<Rightarrow> bool" where
  "isString (Str s) = True"
| "isString v = False"

text \<open>Truthiness, as the conditional operator tests it.\<close>

fun truthy :: "jsval \<Rightarrow> bool" where
  "truthy Undefined = False"
| "truthy Null = False"
| "truthy (Num n) = (n \<noteq> 0)"
| "truthy (Str s) = (s \<noteq> [])"
| "truthy (Obj c ps) = True"

subsection \<open>Decimal numerals\<close>

definition digit :: "nat \<Rightarrow> char" where
  "digit d = char_of (48 + d)"

definition isDigit :: "char \<Rightarrow> bool" where
  "isDigit c = (48 \<le> (of_char c :: nat) \<and> (of_char c :: nat) \<le> 57)"

definition digitVal :: "char \<Rightarrow> nat" where
  "digitVal c = of_char c - 48"

text \<open>The string a non-negative integer converts to (\<open>'' + n\<close>).\<close>

fun decimal :: "nat \<Rightarrow> string" where
  "decimal n = (if n < 10 then [digit n] else decimal (n div 10) @ [digit (n mod 10)])"

declare decimal.simps [simp del]

definition digitsVal :: "string \<Rightarrow> nat" where
  "digitsVal s = foldl (\<lambda>a c. 10 * a + digitVal c) 0 s"

definition isSpace :: "char \<Rightarrow> bool" where
  "isSpace c = (c = CHR '' '' \<or> c = CHR 0x09 \<or> c = CHR 0x0A \<or> c = CHR 0x0B \<or> c = CHR 0x0C \<or> c = CHR 0x0D)"

text \<open>\<open>String.prototype.trim\<close>, on the ASCII white space.\<close>

definition trim :: "string \<Rightarrow> string" where
  "trim s = rev (dropWhile isSpace (rev (dropWhile isSpace s)))"

text \<open>
  The number a string converts to; \<open>None\<close> is \<open>NaN\<close>. White space around the numeral is
  dropped, the empty string is \<open>0\<close>, and the numeral is a run of digits with an optional
  sign. The other numeral notations of the language (a fraction, an exponent, a radix
  prefix, \<open>Infinity\<close>) are not modelled and read as \<open>NaN\<close> here, white space is the ASCII
  one, and the integers are compared as they are, not as the floating point numbers of
  the language, which agree with them up to \<open>2^53\<close>. No theorem below depends on a string of
  that kind or on a number that large: a number is compared with the numeral of a page
  only, and the statements about \<open>match\<close> are about properties that are compared without a
  conversion.
\<close>

definition strToNumber :: "string \<Rightarrow> int option" where
  "strToNumber s =
     (let t = trim s in
      if t = [] then Some 0
      else if list_all isDigit t then Some (int (digitsVal t))
      else if hd t = CHR ''+'' \<and> tl t \<noteq> [] \<and> list_all isDigit (tl t) then Some (int (digitsVal (tl t)))
      else if hd t = CHR ''-'' \<and> tl t \<noteq> [] \<and> list_all isDigit (tl t) then Some (- int (digitsVal (tl t)))
      else None)"

text \<open>The string an object converts to when it is compared with a primitive.\<close>

definition objectString :: "string \<Rightarrow> string" where
  "objectString c = ''[object '' @ c @ '']''"

fun toNumber :: "jsval \<Rightarrow> int option" where
  "toNumber Undefined = None"
| "toNumber Null = Some 0"
| "toNumber (Num n) = Some n"
| "toNumber (Str s) = strToNumber s"
| "toNumber (Obj c ps) = strToNumber (objectString c)"

text \<open>\<open>x == n\<close> for a number \<open>n\<close>, and \<open>x == s\<close> for a string \<open>s\<close>.\<close>

fun looseEqNum :: "jsval \<Rightarrow> int \<Rightarrow> bool" where
  "looseEqNum Undefined n = False"
| "looseEqNum Null n = False"
| "looseEqNum (Num m) n = (m = n)"
| "looseEqNum (Str s) n = (strToNumber s = Some n)"
| "looseEqNum (Obj c ps) n = (strToNumber (objectString c) = Some n)"

fun looseEqStr :: "jsval \<Rightarrow> string \<Rightarrow> bool" where
  "looseEqStr Undefined s = False"
| "looseEqStr Null s = False"
| "looseEqStr (Num m) s = (strToNumber s = Some m)"
| "looseEqStr (Str t) s = (t = s)"
| "looseEqStr (Obj c ps) s = (objectString c = s)"


subsection \<open>Property access\<close>

text \<open>
  A key names an index of a string when it is the decimal numeral of that index. Of a
  string the model has the length and the characters; every other key reads \<open>undefined\<close>.
\<close>

definition indexKey :: "string \<Rightarrow> nat option" where
  "indexKey k = (if k \<noteq> [] \<and> list_all isDigit k \<and> decimal (digitsVal k) = k then Some (digitsVal k) else None)"

definition strProp :: "string \<Rightarrow> string \<Rightarrow> jsval" where
  "strProp s k =
     (if k = ''length'' then Num (int (length s))
      else case indexKey k of
             None \<Rightarrow> Undefined
           | Some i \<Rightarrow> if i < length s then Str [s ! i] else Undefined)"

text \<open>
  \<open>first[second]\<close>. Reading a property of \<open>undefined\<close> or \<open>null\<close> throws a \<open>TypeError\<close>; a
  property that an object does not have, of its own or inherited, reads as \<open>undefined\<close>.
\<close>

fun getProp :: "jsval \<Rightarrow> string \<Rightarrow> error + jsval" where
  "getProp Undefined k = Inl TypeError"
| "getProp Null k = Inl TypeError"
| "getProp (Num n) k = Inr Undefined"
| "getProp (Str s) k = Inr (strProp s k)"
| "getProp (Obj c ps) k = Inr (case map_of ps k of None \<Rightarrow> Undefined | Some v \<Rightarrow> v)"

text \<open>
  \<open>first[second] = v\<close>, returning the target after the write. The library runs in strict
  mode (\<open>'use strict'\<close> heads the file), where a write to a property of a primitive throws
  as a write to \<open>undefined\<close> or \<open>null\<close> does.
\<close>

fun putProp :: "jsval \<Rightarrow> string \<Rightarrow> jsval \<Rightarrow> error + jsval" where
  "putProp (Obj c ps) k v = Inr (Obj c (AList.update k v ps))"
| "putProp x k v = Inl TypeError"

text \<open>\<open>delete first[second]\<close>.\<close>

fun deleteProp :: "jsval \<Rightarrow> string \<Rightarrow> error + jsval" where
  "deleteProp (Obj c ps) k = Inr (Obj c (AList.delete k ps))"
| "deleteProp Undefined k = Inl TypeError"
| "deleteProp Null k = Inl TypeError"
| "deleteProp x k = Inr x"

section \<open>fQuery: property paths\<close>

subsection \<open>Selectors\<close>

text \<open>\<open>String.prototype.split\<close> at a one-character separator: the empty string gives one empty piece.\<close>

fun split :: "char \<Rightarrow> string \<Rightarrow> string list" where
  "split sep [] = [[]]"
| "split sep (c # cs) =
     (if c = sep then [] # split sep cs
      else case split sep cs of [] \<Rightarrow> [[c]] | w # ws \<Rightarrow> (c # w) # ws)"

record aliasObject =
  test :: bool
  alias_val :: string

text \<open>\<open>selectorValidator\<close>: of the predicates whose test passes, the last one listed wins.\<close>

definition selectorValidator :: "(string \<Rightarrow> aliasObject) list \<Rightarrow> string \<Rightarrow> aliasObject" where
  "selectorValidator bools value =
     foldl (\<lambda>first next. let current = next value in if test current then current else first)
       \<lparr>test = False, alias_val = ''''\<rparr> bools"

text \<open>\<open>styleAlias\<close>: the test is the regular expression \<open>/^\./\<close>.\<close>

definition styleAlias :: "string \<Rightarrow> aliasObject" where
  "styleAlias value = \<lparr>test = (case value of [] \<Rightarrow> False | c # cs \<Rightarrow> c = CHR ''.''), alias_val = ''style'' @ value\<rparr>"

text \<open>\<open>childAlias\<close>: the test is \<open>/>/\<close>, the alias \<open>value.replace(/>/gi, '.children.')\<close>.\<close>

definition replaceAll :: "char \<Rightarrow> string \<Rightarrow> string \<Rightarrow> string" where
  "replaceAll c r value = concat (map (\<lambda>x. if x = c then r else [x]) value)"

definition childAlias :: "string \<Rightarrow> aliasObject" where
  "childAlias value =
     \<lparr>test = (CHR ''>'' \<in> set value), alias_val = replaceAll CHR ''>'' ''.children.'' value\<rparr>"

definition propWrapper :: "(string \<Rightarrow> string list) \<Rightarrow> (string \<Rightarrow> aliasObject) list \<Rightarrow> string \<Rightarrow> string list" where
  "propWrapper engine tests property =
     (let a = selectorValidator tests property in
      if test a then engine (alias_val a) else engine property)"

definition prop_js :: "string \<Rightarrow> string list" where
  "prop_js property = filter (\<lambda>key. key \<noteq> '''') (split CHR ''.'' property)"

definition on :: "string \<Rightarrow> string list" where
  "on = propWrapper prop_js [styleAlias, childAlias]"

subsection \<open>Reading and writing along a path\<close>

text \<open>
  \<open>getValue()(elementSelected, array)\<close>: \<open>array.reduce((first, second) => first[second],
  elementSelected)\<close>.
\<close>

fun getValue :: "jsval \<Rightarrow> string list \<Rightarrow> error + jsval" where
  "getValue first [] = Inr first"
| "getValue first (second # array) = bindE (getProp first second) (\<lambda>v. getValue v array)"

text \<open>
  \<open>setValue(value)(elementSelected, array)\<close> reduces the path with
  \<open>keyTest(first[second]) ? first[second] = value : first[second]\<close>. The write happens in
  place; the model returns the value of the reduction together with the target after
  the writes. After a write the reduction goes on from the written string, a primitive:
  whatever happens there does not reach the target any more. Where the step is not a
  write, the reduction goes on inside the value read, and what is written there is
  seen from the target (\<open>writeBack\<close>). When the reduction throws, the result is the
  exception alone: the model does not keep what the call has written before.
\<close>

fun writeBack :: "jsval \<Rightarrow> string \<Rightarrow> jsval \<Rightarrow> jsval" where
  "writeBack (Obj c ps) k v = (if map_of ps k = None then Obj c ps else Obj c (AList.update k v ps))"
| "writeBack x k v = x"

fun setValue :: "string \<Rightarrow> jsval \<Rightarrow> string list \<Rightarrow> error + (jsval \<times> jsval)" where
  "setValue value first [] = Inr (first, first)"
| "setValue value first (second # array) =
     bindE (getProp first second) (\<lambda>cur.
       if isString cur then
         bindE (putProp first second (Str value)) (\<lambda>first'.
           bindE (setValue value (Str value) array) (\<lambda>(r, w). Inr (r, first')))
       else
         bindE (setValue value cur array) (\<lambda>(r, cur'). Inr (r, writeBack first second cur')))"


section \<open>fQuery: elements\<close>

text \<open>
  A DOM element is an object of the language together with what the host keeps of it out
  of the program's sight. Of that, the code under study depends on one thing: the
  \<open>display\<close> value that the style sheets give the element, which is what
  \<open>getComputedStyle(element).display\<close> reports as long as the element carries no inline
  \<open>display\<close> declaration; an inline declaration overrides the style sheets.
\<close>

record element =
  js :: jsval
  cssDisplay :: string

definition computedDisplay :: "element \<Rightarrow> string" where
  "computedDisplay element =
     (case getValue (js element) [''style'', ''display''] of
        Inr (Str d) \<Rightarrow> if d = '''' then cssDisplay element else d
      | _ \<Rightarrow> cssDisplay element)"

text \<open>
  \<open>element.style[k] = v\<close>. The host keeps a value that is valid for the property and
  drops any other; the model keeps every value. The code under study writes the opacities
  \<open>0\<close> and \<open>1\<close>, the displays \<open>none\<close> and the empty string (which removes the declaration),
  and, in \<open>show\<close>, the value stored under \<open>$$$display\<close>. That one is valid when \<open>hide\<close> has
  stored it, as \<open>hide\<close> stores a computed value, which is a display keyword.
\<close>

definition setStyle :: "element \<Rightarrow> string \<Rightarrow> jsval \<Rightarrow> error + element" where
  "setStyle element k v =
     bindE (getProp (js element) ''style'') (\<lambda>style.
     bindE (putProp style k v) (\<lambda>style'.
       Inr (element\<lparr>js := writeBack (js element) ''style'' style'\<rparr>)))"

text \<open>
  \<open>hide\<close>: \<open>element.style.opacity = '0'; element.$$$display =
  getComputedStyle(element).display; element.style.display = "none"; return element\<close>.
\<close>

definition hide :: "element \<Rightarrow> error + element" where
  "hide element =
     bindE (setStyle element ''opacity'' (Str ''0'')) (\<lambda>e1.
     bindE (putProp (js e1) ''$$$display'' (Str (computedDisplay e1))) (\<lambda>j2.
       setStyle (e1\<lparr>js := j2\<rparr>) ''display'' (Str ''none'')))"

text \<open>
  \<open>show\<close>: \<open>element.style.opacity = '1'; element.style.display = (element.$$$display) ?
  element.$$$display : ""; delete element.$$$display; return element\<close>.
\<close>

definition show_js :: "element \<Rightarrow> error + element" where
  "show_js element =
     bindE (setStyle element ''opacity'' (Str ''1'')) (\<lambda>e1.
     bindE (getProp (js e1) ''$$$display'') (\<lambda>stored.
     bindE (setStyle e1 ''display'' (if truthy stored then stored else Str '''')) (\<lambda>e2.
     bindE (deleteProp (js e2) ''$$$display'') (\<lambda>j3.
       Inr (e2\<lparr>js := j3\<rparr>)))))"

text \<open>What the claims observe of an element.\<close>

definition opacityOf :: "element \<Rightarrow> error + jsval" where
  "opacityOf element = getValue (js element) [''style'', ''opacity'']"

definition displayOf :: "element \<Rightarrow> error + jsval" where
  "displayOf element = getValue (js element) [''style'', ''display'']"

definition storedDisplay :: "element \<Rightarrow> error + jsval" where
  "storedDisplay element = getValue (js element) [''$$$display'']"


text \<open>An element proper is an object with a style declaration that is an object.\<close>

definition isElement :: "element \<Rightarrow> bool" where
  "isElement element =
     (case js element of
        Obj c ps \<Rightarrow> (case map_of ps ''style'' of Some (Obj sc st) \<Rightarrow> True | _ \<Rightarrow> False)
      | _ \<Rightarrow> False)"

text \<open>
  A student item as the host page has it before the widget runs: a list item whose first
  child holds the avatar and, second, the heading with the student's name (the path
  \<open>>0>1.innerHTML\<close>), with no inline style. The style sheet shows it as a block.
\<close>

definition studentItem :: "string \<Rightarrow> element" where
  "studentItem nm =
     \<lparr>js = Obj ''HTMLLIElement''
        [(''className'', Str ''student-item cf''),
         (''style'', Obj ''CSSStyleDeclaration'' [(''opacity'', Str ''''), (''display'', Str '''')]),
         (''children'', Obj ''HTMLCollection''
            [(''0'', Obj ''HTMLDivElement''
               [(''className'', Str ''student-details''),
                (''children'', Obj ''HTMLCollection''
                   [(''0'', Obj ''HTMLImageElement'' [(''className'', Str ''avatar'')]),
                    (''1'', Obj ''HTMLHeadingElement'' [(''innerHTML'', Str nm)]),
                    (''length'', Num 2)])]),
             (''length'', Num 1)])],
      cssDisplay = ''block''\<rparr>"

section \<open>fQuery: collections\<close>

text \<open>
  The elements that \<open>$$\<close> selects live in the document; the model keeps them in a store, a
  list in document order, and an element array is the list of the positions of its
  elements in the store (its references). A named function handed to \<open>then\<close> is one of two
  kinds: an element verb changes the element it is given in place and returns it
  (\<open>hide\<close>, \<open>show\<close>, the function \<open>s\<close> of \<open>setIt\<close>); an element test returns a boolean and
  changes nothing (the functions \<open>m\<close> of \<open>matchIt\<close> and \<open>f\<close> of \<open>findIt\<close>).
\<close>

type_synonym store = "element list"

datatype callback =
    ElementVerb "element \<Rightarrow> error + element"
  | ElementTest "element \<Rightarrow> error + bool"

record jsfun =
  name :: string
  body :: callback

text \<open>
  What \<open>then(elementArray)\<close> is given: the name of a native array method with its
  arguments (of these, \<open>slice\<close> with its two bounds is modelled, a bound \<open>None\<close> being \<open>NaN\<close>),
  or a function.
\<close>

datatype action =
    Slice "int option" "int option"
  | Func jsfun

text \<open>
  What the transformation yields: an array of elements, an array of booleans (a test
  that was mapped), or, for a function without a name, the closure \<open>underscore\<close> that
  waits for further arguments; the model does not run that closure.
\<close>

datatype transform =
    Elements "nat list"
  | Booleans "bool list"
  | Underscore

text \<open>\<open>Array.prototype.slice(start, end)\<close> with both bounds given.\<close>

definition slice_js :: "'a list \<Rightarrow> int option \<Rightarrow> int option \<Rightarrow> 'a list" where
  "slice_js xs start fin =
     (let len = int (length xs);
          relativeStart = (case start of None \<Rightarrow> 0 | Some a \<Rightarrow> a);
          k = (if relativeStart < 0 then max (len + relativeStart) 0 else min relativeStart len);
          relativeEnd = (case fin of None \<Rightarrow> 0 | Some b \<Rightarrow> b);
          final = (if relativeEnd < 0 then max (len + relativeEnd) 0 else min relativeEnd len)
      in take (nat (final - k)) (drop (nat k) xs))"

text \<open>
  \<open>Array.prototype.map\<close> and \<open>filter\<close> call the function on the elements in order; an
  exception ends the call.
\<close>

fun mapVerb :: "(element \<Rightarrow> error + element) \<Rightarrow> nat list \<Rightarrow> store \<Rightarrow> error + store" where
  "mapVerb v [] st = Inr st"
| "mapVerb v (i # refs) st = bindE (v (st ! i)) (\<lambda>x. mapVerb v refs (st[i := x]))"

fun mapTest :: "(element \<Rightarrow> error + bool) \<Rightarrow> nat list \<Rightarrow> store \<Rightarrow> error + bool list" where
  "mapTest p [] st = Inr []"
| "mapTest p (i # refs) st = bindE (p (st ! i)) (\<lambda>b. bindE (mapTest p refs st) (\<lambda>bs. Inr (b # bs)))"

definition map_js :: "callback \<Rightarrow> nat list \<Rightarrow> store \<Rightarrow> error + (transform \<times> store)" where
  "map_js cb elementArray st =
     (case cb of
        ElementVerb v \<Rightarrow> bindE (mapVerb v elementArray st) (\<lambda>st'. Inr (Elements elementArray, st'))
      | ElementTest p \<Rightarrow> bindE (mapTest p elementArray st) (\<lambda>bs. Inr (Booleans bs, st)))"

text \<open>\<open>filter\<close> keeps the elements for which the function returns a truthy value; an element is one.\<close>

definition filter_js :: "callback \<Rightarrow> nat list \<Rightarrow> store \<Rightarrow> error + (transform \<times> store)" where
  "filter_js cb elementArray st =
     (case cb of
        ElementVerb v \<Rightarrow> bindE (mapVerb v elementArray st) (\<lambda>st'. Inr (Elements elementArray, st'))
      | ElementTest p \<Rightarrow>
          bindE (mapTest p elementArray st) (\<lambda>bs.
            Inr (Elements (map fst (filter snd (zip elementArray bs))), st)))"

text \<open>
  \<open>then(elementArray)(action)\<close>, with the arguments of the native method taken in at once.
\<close>

definition then_js :: "nat list \<Rightarrow> action \<Rightarrow> store \<Rightarrow> error + (transform \<times> store)" where
  "then_js elementArray action st =
     (case action of
        Slice start fin \<Rightarrow> Inr (Elements (slice_js elementArray start fin), st)
      | Func fn \<Rightarrow>
          if name fn \<noteq> '''' then
            (let method = (if name fn = ''m'' \<or> name fn = ''f'' then ''filter'' else ''map'')
             in if method = ''filter'' then filter_js (body fn) elementArray st
                else map_js (body fn) elementArray st)
          else Inr (Underscore, st))"

text \<open>\<open>$$(selector)\<close> for the selector of the items the store keeps.\<close>

definition select_all :: "store \<Rightarrow> nat list" where
  "select_all st = [0..<length st]"

subsection \<open>The prepared functions\<close>

text \<open>
  \<open>objToArr\<close> lists the entries of an object in the order \<open>for ... in\<close> visits them; an object
  literal is given here by that list, with string values (\<open>PropertyArray\<close> is a \<open>string[]\<close>).
\<close>

definition objToArr :: "(string \<times> string) list \<Rightarrow> (string \<times> string) list" where
  "objToArr obj = obj"

definition actionMaker :: "((string \<times> string) list \<Rightarrow> jsfun) \<Rightarrow> (string \<times> string) list \<Rightarrow> jsfun" where
  "actionMaker action object = (let propArray = objToArr object in action propArray)"

text \<open>\<open>Array.prototype.every\<close> and \<open>some\<close>: they stop at the first answer that decides.\<close>

fun every :: "('a \<Rightarrow> error + bool) \<Rightarrow> 'a list \<Rightarrow> error + bool" where
  "every p [] = Inr True"
| "every p (x # xs) = bindE (p x) (\<lambda>b. if b then every p xs else Inr False)"

fun some :: "('a \<Rightarrow> error + bool) \<Rightarrow> 'a list \<Rightarrow> error + bool" where
  "some p [] = Inr False"
| "some p (x # xs) = bindE (p x) (\<lambda>b. if b then Inr True else some p xs)"

text \<open>\<open>String.prototype.includes\<close>.\<close>

fun includes_js :: "string \<Rightarrow> string \<Rightarrow> bool" where
  "includes_js [] v = (v = [])"
| "includes_js (c # s) v = (prefix v (c # s) \<or> includes_js s v)"

text \<open>
  \<open>x.includes(v)\<close>: of the values of the model only a string has the method; on anything
  else the call throws (an object with a method \<open>includes\<close> of its own, such as an array,
  is not modelled).
\<close>

fun callIncludes :: "jsval \<Rightarrow> string \<Rightarrow> error + bool" where
  "callIncludes (Str s) v = Inr (includes_js s v)"
| "callIncludes x v = Inl TypeError"

text \<open>The function \<open>m\<close> that \<open>matchIt(propArray)\<close> returns.\<close>

definition matchIt_m :: "(string \<times> string) list \<Rightarrow> element \<Rightarrow> error + bool" where
  "matchIt_m propArray element =
     every (\<lambda>property.
        bindE (getValue (js element) (on (fst property))) (\<lambda>v. Inr (looseEqStr v (snd property))))
       propArray"

definition matchIt :: "(string \<times> string) list \<Rightarrow> jsfun" where
  "matchIt propArray = \<lparr>name = ''m'', body = ElementTest (matchIt_m propArray)\<rparr>"

text \<open>The function \<open>s\<close> that \<open>setIt(propArray)\<close> returns.\<close>

fun setIt_s :: "(string \<times> string) list \<Rightarrow> element \<Rightarrow> error + element" where
  "setIt_s [] element = Inr element"
| "setIt_s (property # propArray) element =
     bindE (setValue (snd property) (js element) (on (fst property)))
       (\<lambda>(r, j). setIt_s propArray (element\<lparr>js := j\<rparr>))"

definition setIt :: "(string \<times> string) list \<Rightarrow> jsfun" where
  "setIt propArray = \<lparr>name = ''s'', body = ElementVerb (setIt_s propArray)\<rparr>"

text \<open>The function \<open>f\<close> that \<open>findIt(propArray)\<close> returns.\<close>

definition findIt_f :: "(string \<times> string) list \<Rightarrow> element \<Rightarrow> error + bool" where
  "findIt_f propArray element =
     some (\<lambda>property.
        bindE (getValue (js element) (on (fst property))) (\<lambda>v. callIncludes v (snd property)))
       propArray"

definition findIt :: "(string \<times> string) list \<Rightarrow> jsfun" where
  "findIt propArray = \<lparr>name = ''f'', body = ElementTest (findIt_f propArray)\<rparr>"

definition match_js :: "(string \<times> string) list \<Rightarrow> jsfun" where
  "match_js = actionMaker matchIt"

definition find_js :: "(string \<times> string) list \<Rightarrow> jsfun" where
  "find_js = actionMaker findIt"

definition set_js :: "(string \<times> string) list \<Rightarrow> jsfun" where
  "set_js = actionMaker setIt"

text \<open>\<open>hide\<close> and \<open>show\<close> as they are handed to \<open>then\<close>: function declarations, named.\<close>

definition hide_fn :: jsfun where
  "hide_fn = \<lparr>name = ''hide'', body = ElementVerb hide\<rparr>"

definition show_fn :: jsfun where
  "show_fn = \<lparr>name = ''show'', body = ElementVerb show_js\<rparr>"

section \<open>The pagination widget\<close>

subsection \<open>The document\<close>

text \<open>
  Of the document the model keeps what the widget works on: the student items (the
  elements of class \<open>student-item\<close>, in document order), the container of class
  \<open>pagination\<close> when there is one, with the lists of class \<open>list\<close> appended to it, each with
  the list items appended to it, and the search box of id \<open>search\<close> when there is one.
  The host page has no element of class \<open>list\<close> of its own, so
  \<open>document.querySelector('.list')\<close> is the first list of the container.

  The start-up of the widget (\<open>init\<close> with \<open>attachPagination\<close> and \<open>attachSearch\<close>) appends
  the container and the search box to the host page and calls \<open>makePage('', 1)\<close>. The
  model starts from a document that has them or not, and covers \<open>makePage\<close>,
  \<open>createPageLinks\<close>, \<open>pageEvent\<close> and \<open>getQuery\<close>.
\<close>

record doc =
  students :: store
  pagination :: "(element \<times> element list) list option"
  search :: "element option"

subsection \<open>Making elements\<close>

text \<open>
  \<open>document.createElement(tag)\<close>: an element of the interface of the tag, not attached to
  the document, with its string properties empty. The model lists the properties
  that the widget sets.
\<close>

definition elementInterface :: "string \<Rightarrow> string" where
  "elementInterface tag =
     (if tag = ''div'' then ''HTMLDivElement''
      else if tag = ''input'' then ''HTMLInputElement''
      else if tag = ''ul'' then ''HTMLUListElement''
      else if tag = ''li'' then ''HTMLLIElement''
      else ''HTMLUnknownElement'')"

definition createElement :: "string \<Rightarrow> element" where
  "createElement tag =
     \<lparr>js = Obj (elementInterface tag)
        ([(''className'', Str ''''), (''id'', Str ''''), (''innerHTML'', Str ''''),
          (''style'', Obj ''CSSStyleDeclaration'' [(''opacity'', Str ''''), (''display'', Str '''')]),
          (''children'', Obj ''HTMLCollection'' [(''length'', Num 0)])]
         @ (if tag = ''input'' then [(''placeholder'', Str ''''), (''value'', Str '''')] else [])),
      cssDisplay = ''''\<rparr>"

text \<open>
  The markup of a page link, \<open>'<a class="' + className + '" href="#">' + label + '</a>'\<close>,
  and what the host makes of it when it is assigned to \<open>innerHTML\<close>: one child, the anchor,
  with that class name and that text. The host's parser is modelled for this markup
  only; any other markup leaves the children of the model as they are.
\<close>

definition dq :: char where
  "dq = CHR 0x22"

definition anchorMarkup :: "string \<Rightarrow> string \<Rightarrow> string" where
  "anchorMarkup className label =
     ''<a class='' @ [dq] @ className @ [dq] @ '' href='' @ [dq] @ ''#'' @ [dq] @ ''>'' @ label @ ''</a>''"

fun stripPrefix :: "string \<Rightarrow> string \<Rightarrow> string option" where
  "stripPrefix [] s = Some s"
| "stripPrefix (p # ps) [] = None"
| "stripPrefix (p # ps) (c # cs) = (if p = c then stripPrefix ps cs else None)"

definition parseAnchor :: "string \<Rightarrow> (string \<times> string) option" where
  "parseAnchor html =
     (case stripPrefix (''<a class='' @ [dq]) html of
        None \<Rightarrow> None
      | Some r1 \<Rightarrow>
          (case stripPrefix ([dq] @ '' href='' @ [dq] @ ''#'' @ [dq] @ ''>'') (dropWhile (\<lambda>c. c \<noteq> dq) r1) of
             None \<Rightarrow> None
           | Some r2 \<Rightarrow>
               if dropWhile (\<lambda>c. c \<noteq> CHR ''<'') r2 = ''</a>''
               then Some (takeWhile (\<lambda>c. c \<noteq> dq) r1, takeWhile (\<lambda>c. c \<noteq> CHR ''<'') r2)
               else None))"

definition rendered :: "element \<Rightarrow> element" where
  "rendered element =
     (case getProp (js element) ''innerHTML'' of
        Inr (Str html) \<Rightarrow>
          (case parseAnchor html of
             None \<Rightarrow> element
           | Some (className, label) \<Rightarrow>
               element\<lparr>js := writeBack (js element) ''children''
                 (Obj ''HTMLCollection''
                    [(''0'', Obj ''HTMLAnchorElement''
                        [(''className'', Str className), (''innerHTML'', Str label)]),
                     (''length'', Num 1)])\<rparr>)
      | _ \<Rightarrow> element)"

text \<open>
  \<open>make(tag, obj)\<close>: \<open>set(obj)(rawElement)\<close>, where \<open>set(obj)\<close> is the function \<open>s\<close> of
  \<open>setIt(objToArr(obj))\<close>; the element is the one the host shows after the assignments.
\<close>

definition make :: "string \<Rightarrow> (string \<times> string) list \<Rightarrow> error + element" where
  "make tag obj =
     (let rawElement = createElement tag in
      bindE (setIt_s (objToArr obj) rawElement) (\<lambda>element. Inr (rendered element)))"

text \<open>
  \<open>appendTo(selector)(elementSelected)\<close>, for the two selectors of the page links. With no
  match \<open>parent\<close> is \<open>null\<close> and \<open>parent.appendChild\<close> throws. In the chain
  \<open>$(make(...))(and)(appendTo(selector))()\<close> the glue \<open>and\<close> calls the verb twice on the same
  element; the second \<open>appendChild\<close> moves the element to the end of the parent it is
  already the last child of, so one call is modelled. Selectors of other parts of the
  page are taken to match nothing.
\<close>

definition appendTo :: "string \<Rightarrow> doc \<Rightarrow> element \<Rightarrow> error + doc" where
  "appendTo selector d elementSelected =
     (if selector = ''.pagination'' then
        (case pagination d of
           None \<Rightarrow> Inl TypeError
         | Some uls \<Rightarrow> Inr (d\<lparr>pagination := Some (uls @ [(elementSelected, [])])\<rparr>))
      else if selector = ''.list'' then
        (case pagination d of
           Some ((ul, items) # uls) \<Rightarrow>
             Inr (d\<lparr>pagination := Some ((ul, items @ [elementSelected]) # uls)\<rparr>)
         | _ \<Rightarrow> Inl TypeError)
      else Inl TypeError)"

subsection \<open>The page links\<close>

text \<open>\<open>Math.ceil(n / 10)\<close>.\<close>

definition ceil10 :: "nat \<Rightarrow> nat" where
  "ceil10 n = nat \<lceil>real n / 10\<rceil>"

text \<open>
  The loop of \<open>createPageLinks\<close>, from \<open>i\<close> on: \<open>for (var i = 0; i < totalPages; i++)\<close>.
\<close>

function createPageLinks_loop :: "nat \<Rightarrow> nat \<Rightarrow> jsval \<Rightarrow> doc \<Rightarrow> error + doc" where
  "createPageLinks_loop i totalPages active d =
     (if i < totalPages then
        (let className = (if looseEqNum active (int i + 1) then ''active'' else '''');
             options = [(''innerHTML'', anchorMarkup className (decimal (i + 1)))]
         in bindE (make ''li'' options) (\<lambda>pageLink.
            bindE (appendTo ''.list'' d pageLink) (\<lambda>d'.
              createPageLinks_loop (i + 1) totalPages active d')))
      else Inr d)"
  by pat_completeness auto
termination
  by (relation "measure (\<lambda>(i, totalPages, active, d). totalPages - i)") auto

declare createPageLinks_loop.simps [simp del]

definition createPageLinks :: "nat list \<Rightarrow> jsval \<Rightarrow> doc \<Rightarrow> error + doc" where
  "createPageLinks array active d =
     bindE (make ''ul'' [(''className'', ''list'')]) (\<lambda>ul.
     bindE (appendTo ''.pagination'' d ul) (\<lambda>d1.
       let totalPages = ceil10 (length array) in
       createPageLinks_loop 0 totalPages active d1))"

subsection \<open>Rendering a page\<close>

text \<open>
  In \<open>makePage\<close> every step of the chain hands an array of elements to the next; a step
  on anything else would call \<open>show\<close>, \<open>hide\<close> or the test of \<open>find\<close> on a value that is not an
  element, and throw.
\<close>

fun elementsOf :: "transform \<Rightarrow> error + nat list" where
  "elementsOf (Elements arr) = Inr arr"
| "elementsOf t = Inl TypeError"

definition makePage :: "string \<Rightarrow> jsval \<Rightarrow> doc \<Rightarrow> error + doc" where
  "makePage query page d =
     (let first = map_option (\<lambda>n. (n - 1) * 10) (toNumber page);
          last = map_option (\<lambda>n. n * 10) (toNumber page)
      in
      bindE (then_js (select_all (students d)) (Func show_fn) (students d)) (\<lambda>(t1, st1).
      bindE (elementsOf t1) (\<lambda>a1.
      bindE (then_js a1 (Func hide_fn) st1) (\<lambda>(t2, st2).
      bindE (elementsOf t2) (\<lambda>a2.
      bindE (then_js a2 (Func (find_js [(''>0>1.innerHTML'', query)])) st2) (\<lambda>(t3, st3).
      bindE (elementsOf t3) (\<lambda>array.
      bindE (then_js array (Slice first last) st3) (\<lambda>(t4, st4).
      bindE (elementsOf t4) (\<lambda>a4.
      bindE (then_js a4 (Func show_fn) st4) (\<lambda>(t5, st5).
        createPageLinks array page (d\<lparr>students := st5\<rparr>)))))))))))"

subsection \<open>Events\<close>

text \<open>\<open>String.prototype.toLowerCase\<close>, on the ASCII letters.\<close>

definition toLowerCase :: "string \<Rightarrow> string" where
  "toLowerCase s =
     map (\<lambda>c. if 65 \<le> (of_char c :: nat) \<and> (of_char c :: nat) \<le> 90 then char_of ((of_char c :: nat) + 32) else c) s"

text \<open>
  \<open>getQuery\<close>: the value of the search box, or the empty string without a search box, in
  lower case and trimmed. A value that is not a string has no \<open>toLowerCase\<close>.
\<close>

definition getQuery :: "doc \<Rightarrow> error + string" where
  "getQuery d =
     bindE (case search d of
              None \<Rightarrow> Inr ''''
            | Some box \<Rightarrow>
                bindE (getValue (js box) (on ''value''))
                  (\<lambda>v. case v of Str s \<Rightarrow> Inr s | _ \<Rightarrow> Inl TypeError))
       (\<lambda>query. Inr (trim (toLowerCase query)))"

text \<open>
  \<open>pageEvent\<close>, the handler of a key release in the search box and of a click on a page
  link; \<open>this\<close> is the element the listener is attached to, the search box or the list
  item of the link. It removes the first list, reads the page and renders it.
\<close>

definition pageEvent :: "element \<Rightarrow> doc \<Rightarrow> error + doc" where
  "pageEvent this d =
     bindE (case pagination d of
              Some (l # uls) \<Rightarrow> Inr (d\<lparr>pagination := Some uls\<rparr>)
            | _ \<Rightarrow> Inl TypeError) (\<lambda>d1.
     bindE (getProp (js this) ''id'') (\<lambda>ident.
     bindE (if looseEqStr ident ''search'' then Inr (Num 1)
            else getValue (js this) (on ''>0.innerHTML'')) (\<lambda>page.
     bindE (getQuery d1) (\<lambda>query.
       makePage query page d1))))"

text \<open>What the claims observe of a page link, a list item with its anchor.\<close>

definition linkLabel :: "element \<Rightarrow> error + jsval" where
  "linkLabel pageLink = getValue (js pageLink) (on ''>0.innerHTML'')"

definition linkClass :: "element \<Rightarrow> error + jsval" where
  "linkClass pageLink = getValue (js pageLink) (on ''>0.className'')"

text \<open>
  What the claims observe of a student item: its name, and whether it is visible (not
  transparent and not taken out of the layout).
\<close>

definition nameOf :: "element \<Rightarrow> error + jsval" where
  "nameOf element = getValue (js element) (on ''>0>1.innerHTML'')"

definition visible :: "element \<Rightarrow> bool" where
  "visible element = (computedDisplay element \<noteq> ''none'' \<and> opacityOf element \<noteq> Inr (Str ''0''))"

definition hidden :: "element \<Rightarrow> bool" where
  "hidden element = (displayOf element = Inr (Str ''none'') \<and> opacityOf element = Inr (Str ''0''))"

text \<open>
  The elements that \<open>createPageLinks\<close> makes, as the document shows them: the list, and
  the list item of a link with a given class name and label.
\<close>

definition listElement :: element where
  "listElement =
     \<lparr>js = Obj ''HTMLUListElement''
        [(''className'', Str ''list''), (''id'', Str ''''), (''innerHTML'', Str ''''),
         (''style'', Obj ''CSSStyleDeclaration'' [(''opacity'', Str ''''), (''display'', Str '''')]),
         (''children'', Obj ''HTMLCollection'' [(''length'', Num 0)])],
      cssDisplay = ''''\<rparr>"

definition linkElement :: "string \<Rightarrow> string \<Rightarrow> element" where
  "linkElement className label =
     \<lparr>js = Obj ''HTMLLIElement''
        [(''className'', Str ''''), (''id'', Str ''''),
         (''innerHTML'', Str (anchorMarkup className label)),
         (''style'', Obj ''CSSStyleDeclaration'' [(''opacity'', Str ''''), (''display'', Str '''')]),
         (''children'', Obj ''HTMLCollection''
            [(''0'', Obj ''HTMLAnchorElement''
                [(''className'', Str className), (''innerHTML'', Str label)]),
             (''length'', Num 1)])],
      cssDisplay = ''''\<rparr>"

text \<open>The class name that the loop of \<open>createPageLinks\<close> gives link \<open>i + 1\<close>.\<close>

definition activeClass :: "jsval \<Rightarrow> nat \<Rightarrow> string" where
  "activeClass active i = (if looseEqNum active (int i + 1) then ''active'' else '''')"

definition isActive :: "element \<Rightarrow> bool" where
  "isActive pageLink = (linkClass pageLink = Inr (Str ''active''))"

text \<open>
  A student item in a state in which the widget can render it: an element proper whose
  name path resolves to a string, which the style sheets do not hide, and which does
  not have \<open>none\<close> stored as the display to come back to (the state two \<open>hide\<close> in a
  row would leave).
\<close>

definition studentOk :: "element \<Rightarrow> bool" where
  "studentOk element =
     (isElement element
      \<and> (case nameOf element of Inr (Str n) \<Rightarrow> True | _ \<Rightarrow> False)
      \<and> cssDisplay element \<noteq> ''none''
      \<and> storedDisplay element \<noteq> Inr (Str ''none''))"

text \<open>
  The matched set in the words of the specification: the positions, in document order,
  of the student items whose name contains the query as a substring.
\<close>

definition matchedItems :: "string \<Rightarrow> store \<Rightarrow> nat list" where
  "matchedItems query st =
     filter (\<lambda>i. case nameOf (st ! i) of Inr (Str n) \<Rightarrow> includes_js n query | _ \<Rightarrow> False)
       [0..<length st]"

text \<open>A document to try the widget on: twelve student items, an empty pagination container, no search box.\<close>

definition twelveStudents :: doc where
  "twelveStudents =
     \<lparr>students = map studentItem
        [''Ann'', ''Bob'', ''Cy'', ''Dan'', ''Eve'', ''Fay'', ''Gus'', ''Hal'', ''Ian'', ''Jo'', ''Kim'', ''Lee''],
      pagination = Some [], search = None\<rparr>"

section \<open>Properties of the path functions\<close>

lemma bindE_simps [simp]: "bindE (Inl e) f = Inl e" "bindE (Inr x) f = f x"
  by (simp_all add: bindE_def)

subsection \<open>Selectors\<close>

lemma split_ne: "split sep s \<noteq> []"
  by (induction s) (auto split: list.splits)

lemma split_append: "split sep (a @ sep # b) = split sep a @ split sep b"
  by (induction a) (auto split: list.splits simp: split_ne)

lemma split_no_sep: "sep \<notin> set a \<Longrightarrow> split sep a = [a]"
  by (induction a) auto

lemma prop_js_append: "prop_js (a @ CHR ''.'' # b) = prop_js a @ prop_js b"
  by (simp add: prop_js_def split_append)

lemma prop_js_style: "prop_js (''style'' @ CHR ''.'' # b) = ''style'' # prop_js b"
  using prop_js_append [of "''style''" b] by (simp add: prop_js_def)

lemma prop_js_child_step: "prop_js (a @ ''.children.'' @ x) = prop_js a @ ''children'' # prop_js x"
proof -
  have "a @ ''.children.'' @ x = a @ CHR ''.'' # (''children'' @ CHR ''.'' # x)" by simp
  then have "prop_js (a @ ''.children.'' @ x) = prop_js a @ prop_js (''children'' @ CHR ''.'' # x)"
    by (simp only: prop_js_append)
  also have "prop_js (''children'' @ CHR ''.'' # x) = prop_js ''children'' @ prop_js x"
    by (simp only: prop_js_append)
  also have "prop_js ''children'' = [''children'']" by (simp add: prop_js_def)
  finally show ?thesis by simp
qed

lemma replaceAll_none: "c \<notin> set a \<Longrightarrow> replaceAll c r a = a"
  by (induction a) (auto simp: replaceAll_def)

lemma replaceAll_append: "replaceAll c r (a @ c # b) = replaceAll c r a @ r @ replaceAll c r b"
  by (simp add: replaceAll_def)

lemma prop_js_replaceAll:
  "prop_js (replaceAll CHR ''>'' ''.children.'' s) =
     (case split CHR ''>'' s of [] \<Rightarrow> []
      | seg # rest \<Rightarrow> prop_js seg @ concat (map (\<lambda>r. ''children'' # prop_js r) rest))"
proof (induction "length s" arbitrary: s rule: less_induct)
  case less
  show ?case
  proof (cases "CHR ''>'' \<in> set s")
    case False
    then show ?thesis by (simp add: replaceAll_none split_no_sep)
  next
    case True
    then obtain a b where s: "s = a @ CHR ''>'' # b" and a: "CHR ''>'' \<notin> set a"
      by (meson split_list_first)
    have ih: "prop_js (replaceAll CHR ''>'' ''.children.'' b) =
        (case split CHR ''>'' b of [] \<Rightarrow> []
         | seg # rest \<Rightarrow> prop_js seg @ concat (map (\<lambda>r. ''children'' # prop_js r) rest))"
      using less [of b] s by simp
    obtain w ws where w: "split CHR ''>'' b = w # ws"
      using split_ne [of "CHR ''>''" b] by (cases "split CHR ''>'' b") auto
    have "prop_js (replaceAll CHR ''>'' ''.children.'' s) =
        prop_js a @ ''children'' # prop_js (replaceAll CHR ''>'' ''.children.'' b)"
      using replaceAll_none [OF a, of "''.children.''"]
      by (simp only: s replaceAll_append prop_js_child_step)
    then show ?thesis
      using a by (simp add: s split_append split_no_sep ih w)
  qed
qed

lemma on_unfold:
  "on s = (if CHR ''>'' \<in> set s then prop_js (replaceAll CHR ''>'' ''.children.'' s)
           else if s \<noteq> [] \<and> hd s = CHR ''.'' then prop_js (''style'' @ s)
           else prop_js s)"
  by (cases s) (simp_all add: on_def propWrapper_def selectorValidator_def styleAlias_def childAlias_def)

subsection \<open>Reading and writing\<close>









section \<open>Properties of the elements\<close>

lemma bindE_Inr [simp]: "bindE m Inr = m"
  by (cases m) simp_all

lemma isElementE:
  assumes "isElement e"
  obtains c ps sc st where "js e = Obj c ps" "map_of ps ''style'' = Some (Obj sc st)"
proof (cases "js e")
  case (Obj c ps)
  with assms obtain v where v: "map_of ps ''style'' = Some v"
    by (cases "map_of ps ''style''") (auto simp: isElement_def)
  with assms Obj obtain sc st where "v = Obj sc st"
    by (cases v) (auto simp: isElement_def)
  with that Obj v show ?thesis by blast
qed (use assms in \<open>auto simp: isElement_def\<close>)

lemma getValue2: "getValue x [a, b] = bindE (getProp x a) (\<lambda>y. getProp y b)"
  by (cases "getProp x a") simp_all

lemma getValue_root_eq:
  "getProp a p = getProp b p \<Longrightarrow> getValue a (p # path) = getValue b (p # path)"
  by simp

lemma setStyle_ok:
  assumes "isElement e"
  shows "\<exists>e'. setStyle e k v = Inr e' \<and> isElement e' \<and> cssDisplay e' = cssDisplay e
    \<and> getValue (js e') [''style'', k] = Inr v
    \<and> (\<forall>k'. k' \<noteq> k \<longrightarrow> getValue (js e') [''style'', k'] = getValue (js e) [''style'', k'])
    \<and> (\<forall>p. p \<noteq> ''style'' \<longrightarrow> getProp (js e') p = getProp (js e) p)"
proof -
  from assms obtain c ps sc st where e: "js e = Obj c ps" "map_of ps ''style'' = Some (Obj sc st)"
    by (rule isElementE)
  let ?e' = "e\<lparr>js := Obj c (AList.update ''style'' (Obj sc (AList.update k v st)) ps)\<rparr>"
  have "setStyle e k v = Inr ?e'" using e by (simp add: setStyle_def)
  moreover have "isElement ?e'" by (simp add: isElement_def update_conv')
  moreover have "cssDisplay ?e' = cssDisplay e" by simp
  moreover have "getValue (js ?e') [''style'', k] = Inr v" by (simp add: update_conv')
  moreover have "\<forall>k'. k' \<noteq> k \<longrightarrow> getValue (js ?e') [''style'', k'] = getValue (js e) [''style'', k']"
    using e by (simp add: update_conv')
  moreover have "\<forall>p. p \<noteq> ''style'' \<longrightarrow> getProp (js ?e') p = getProp (js e) p"
    using e by (simp add: update_conv')
  ultimately show ?thesis by blast
qed

lemma putRoot_ok:
  assumes "isElement e" "k \<noteq> ''style''"
  shows "\<exists>j. putProp (js e) k v = Inr j \<and> isElement (e\<lparr>js := j\<rparr>)
    \<and> getProp j k = Inr v \<and> (\<forall>p. p \<noteq> k \<longrightarrow> getProp j p = getProp (js e) p)"
proof -
  from assms obtain c ps sc st where e: "js e = Obj c ps" "map_of ps ''style'' = Some (Obj sc st)"
    by (auto elim: isElementE)
  let ?j = "Obj c (AList.update k v ps)"
  have "putProp (js e) k v = Inr ?j" using e by simp
  moreover have "isElement (e\<lparr>js := ?j\<rparr>)" using e assms(2) by (simp add: isElement_def update_conv')
  moreover have "getProp ?j k = Inr v" by (simp add: update_conv')
  moreover have "\<forall>p. p \<noteq> k \<longrightarrow> getProp ?j p = getProp (js e) p" using e by (simp add: update_conv')
  ultimately show ?thesis by blast
qed

lemma deleteRoot_ok:
  assumes "isElement e" "k \<noteq> ''style''"
  shows "\<exists>j. deleteProp (js e) k = Inr j \<and> isElement (e\<lparr>js := j\<rparr>)
    \<and> getProp j k = Inr Undefined \<and> (\<forall>p. p \<noteq> k \<longrightarrow> getProp j p = getProp (js e) p)"
proof -
  from assms obtain c ps sc st where e: "js e = Obj c ps" "map_of ps ''style'' = Some (Obj sc st)"
    by (auto elim: isElementE)
  let ?j = "Obj c (AList.delete k ps)"
  have "deleteProp (js e) k = Inr ?j" using e by simp
  moreover have "isElement (e\<lparr>js := ?j\<rparr>)" using e assms(2) by (simp add: isElement_def delete_conv')
  moreover have "getProp ?j k = Inr Undefined" by (simp add: delete_conv')
  moreover have "\<forall>p. p \<noteq> k \<longrightarrow> getProp ?j p = getProp (js e) p" using e by (simp add: delete_conv')
  ultimately show ?thesis by blast
qed

lemma computedDisplay_eq:
  "getValue (js a) [''style'', ''display''] = getValue (js b) [''style'', ''display''] \<Longrightarrow>
   cssDisplay a = cssDisplay b \<Longrightarrow> computedDisplay a = computedDisplay b"
  unfolding computedDisplay_def by (simp only:)

lemma computedDisplay_inline:
  "displayOf e = Inr (Str d) \<Longrightarrow> computedDisplay e = (if d = '''' then cssDisplay e else d)"
  by (simp add: computedDisplay_def displayOf_def)

lemma computedDisplay_empty: "computedDisplay e = '''' \<Longrightarrow> cssDisplay e = ''''"
  by (auto simp: computedDisplay_def split: sum.splits jsval.splits if_splits)

text \<open>What \<open>hide\<close> does to an element proper, and what it leaves alone.\<close>

lemma hide_ok:
  assumes "isElement e"
  shows "\<exists>h. hide e = Inr h \<and> isElement h \<and> cssDisplay h = cssDisplay e
    \<and> opacityOf h = Inr (Str ''0'') \<and> displayOf h = Inr (Str ''none'')
    \<and> storedDisplay h = Inr (Str (computedDisplay e))
    \<and> (\<forall>p. p \<noteq> ''style'' \<longrightarrow> p \<noteq> ''$$$display'' \<longrightarrow> getProp (js h) p = getProp (js e) p)"
proof -
  from setStyle_ok [OF assms, of "''opacity''" "Str ''0''"]
  obtain e1 where e1: "setStyle e ''opacity'' (Str ''0'') = Inr e1" "isElement e1"
      "cssDisplay e1 = cssDisplay e" "getValue (js e1) [''style'', ''opacity''] = Inr (Str ''0'')"
      "\<forall>k'. k' \<noteq> ''opacity'' \<longrightarrow> getValue (js e1) [''style'', k'] = getValue (js e) [''style'', k']"
      "\<forall>p. p \<noteq> ''style'' \<longrightarrow> getProp (js e1) p = getProp (js e) p"
    by blast
  have cd: "computedDisplay e1 = computedDisplay e"
    using e1(3) e1(5) by (intro computedDisplay_eq) simp_all
  from putRoot_ok [OF e1(2), of "''$$$display''" "Str (computedDisplay e1)"]
  obtain j2 where j2: "putProp (js e1) ''$$$display'' (Str (computedDisplay e1)) = Inr j2"
      "isElement (e1\<lparr>js := j2\<rparr>)" "getProp j2 ''$$$display'' = Inr (Str (computedDisplay e1))"
      "\<forall>p. p \<noteq> ''$$$display'' \<longrightarrow> getProp j2 p = getProp (js e1) p"
    by auto
  from setStyle_ok [OF j2(2), of "''display''" "Str ''none''"]
  obtain h where h: "setStyle (e1\<lparr>js := j2\<rparr>) ''display'' (Str ''none'') = Inr h" "isElement h"
      "cssDisplay h = cssDisplay e1" "getValue (js h) [''style'', ''display''] = Inr (Str ''none'')"
      "\<forall>k'. k' \<noteq> ''display'' \<longrightarrow> getValue (js h) [''style'', k'] = getValue j2 [''style'', k']"
      "\<forall>p. p \<noteq> ''style'' \<longrightarrow> getProp (js h) p = getProp j2 p"
    by auto
  have j2s: "getProp j2 ''style'' = getProp (js e1) ''style''" using j2(4) by simp
  have "hide e = Inr h" using e1(1) j2(1) h(1) by (simp add: hide_def)
  moreover have "cssDisplay h = cssDisplay e" using h(3) e1(3) by simp
  moreover have "opacityOf h = Inr (Str ''0'')"
    using h(5) getValue_root_eq [OF j2s, of "[''opacity'']"] e1(4) by (simp add: opacityOf_def)
  moreover have "displayOf h = Inr (Str ''none'')" using h(4) by (simp add: displayOf_def)
  moreover have "storedDisplay h = Inr (Str (computedDisplay e))"
    using h(6) j2(3) cd by (simp add: storedDisplay_def)
  moreover have "\<forall>p. p \<noteq> ''style'' \<longrightarrow> p \<noteq> ''$$$display'' \<longrightarrow> getProp (js h) p = getProp (js e) p"
    using h(6) j2(4) e1(6) by simp
  ultimately show ?thesis using h(2) by blast
qed

text \<open>The same for \<open>show\<close>; \<open>v\<close> is what the element has stored under \<open>$$$display\<close>.\<close>

lemma show_ok:
  assumes "isElement e"
  shows "\<exists>s v. show_js e = Inr s \<and> isElement s \<and> cssDisplay s = cssDisplay e
    \<and> storedDisplay e = Inr v
    \<and> opacityOf s = Inr (Str ''1'') \<and> displayOf s = Inr (if truthy v then v else Str '''')
    \<and> storedDisplay s = Inr Undefined
    \<and> (\<forall>p. p \<noteq> ''style'' \<longrightarrow> p \<noteq> ''$$$display'' \<longrightarrow> getProp (js s) p = getProp (js e) p)"
proof -
  from setStyle_ok [OF assms, of "''opacity''" "Str ''1''"]
  obtain e1 where e1: "setStyle e ''opacity'' (Str ''1'') = Inr e1" "isElement e1"
      "cssDisplay e1 = cssDisplay e" "getValue (js e1) [''style'', ''opacity''] = Inr (Str ''1'')"
      "\<forall>k'. k' \<noteq> ''opacity'' \<longrightarrow> getValue (js e1) [''style'', k'] = getValue (js e) [''style'', k']"
      "\<forall>p. p \<noteq> ''style'' \<longrightarrow> getProp (js e1) p = getProp (js e) p"
    by blast
  from assms obtain v where v: "getProp (js e) ''$$$display'' = Inr v"
    by (cases "js e") (auto elim!: isElementE)
  then have v1: "getProp (js e1) ''$$$display'' = Inr v" using e1(6) by simp
  define d where "d = (if truthy v then v else Str '''')"
  from setStyle_ok [OF e1(2), of "''display''" d]
  obtain e2 where e2: "setStyle e1 ''display'' d = Inr e2" "isElement e2"
      "cssDisplay e2 = cssDisplay e1" "getValue (js e2) [''style'', ''display''] = Inr d"
      "\<forall>k'. k' \<noteq> ''display'' \<longrightarrow> getValue (js e2) [''style'', k'] = getValue (js e1) [''style'', k']"
      "\<forall>p. p \<noteq> ''style'' \<longrightarrow> getProp (js e2) p = getProp (js e1) p"
    by blast
  from deleteRoot_ok [OF e2(2), of "''$$$display''"]
  obtain j3 where j3: "deleteProp (js e2) ''$$$display'' = Inr j3"
      "isElement (e2\<lparr>js := j3\<rparr>)" "getProp j3 ''$$$display'' = Inr Undefined"
      "\<forall>p. p \<noteq> ''$$$display'' \<longrightarrow> getProp j3 p = getProp (js e2) p"
    by auto
  have j3s: "getProp j3 ''style'' = getProp (js e2) ''style''" using j3(4) by simp
  let ?s = "e2\<lparr>js := j3\<rparr>"
  have "show_js e = Inr ?s" using e1(1) v1 e2(1) j3(1) by (simp add: show_js_def d_def)
  moreover have "cssDisplay ?s = cssDisplay e" using e2(3) e1(3) by simp
  moreover have "storedDisplay e = Inr v" using v by (simp add: storedDisplay_def)
  moreover have "opacityOf ?s = Inr (Str ''1'')"
    using getValue_root_eq [OF j3s, of "[''opacity'']"] e2(5) e1(4) by (simp add: opacityOf_def)
  moreover have "displayOf ?s = Inr (if truthy v then v else Str '''')"
    using getValue_root_eq [OF j3s, of "[''display'']"] e2(4) by (simp add: displayOf_def d_def)
  moreover have "storedDisplay ?s = Inr Undefined" using j3(3) by (simp add: storedDisplay_def)
  moreover have "\<forall>p. p \<noteq> ''style'' \<longrightarrow> p \<noteq> ''$$$display'' \<longrightarrow> getProp (js ?s) p = getProp (js e) p"
    using j3(4) e2(6) e1(6) by simp
  ultimately show ?thesis using j3(2) by blast
qed

lemma show_after_hide:
  assumes "isElement x"
  shows "\<exists>h y. hide x = Inr h \<and> show_js h = Inr y \<and> isElement y \<and> cssDisplay y = cssDisplay x
    \<and> opacityOf y = Inr (Str ''1'') \<and> displayOf y = Inr (Str (computedDisplay x))
    \<and> storedDisplay y = Inr Undefined \<and> computedDisplay y = computedDisplay x
    \<and> (\<forall>p. p \<noteq> ''style'' \<longrightarrow> p \<noteq> ''$$$display'' \<longrightarrow> getProp (js y) p = getProp (js x) p)"
proof -
  from hide_ok [OF assms]
  obtain h where h: "hide x = Inr h" "isElement h" "cssDisplay h = cssDisplay x"
    "storedDisplay h = Inr (Str (computedDisplay x))"
    "\<forall>p. p \<noteq> ''style'' \<longrightarrow> p \<noteq> ''$$$display'' \<longrightarrow> getProp (js h) p = getProp (js x) p"
    by blast
  from show_ok [OF h(2)]
  obtain y v where y: "show_js h = Inr y" "isElement y" "cssDisplay y = cssDisplay h"
    "storedDisplay h = Inr v"
    "opacityOf y = Inr (Str ''1'')" "displayOf y = Inr (if truthy v then v else Str '''')"
    "storedDisplay y = Inr Undefined"
    "\<forall>p. p \<noteq> ''style'' \<longrightarrow> p \<noteq> ''$$$display'' \<longrightarrow> getProp (js y) p = getProp (js h) p"
    by blast
  from y(4) h(4) have v: "v = Str (computedDisplay x)" by simp
  have d: "displayOf y = Inr (Str (computedDisplay x))"
    using y(6) by (simp add: v)
  have "computedDisplay y = computedDisplay x"
    using computedDisplay_inline [OF d] computedDisplay_empty [of x] y(3) h(3) by simp
  moreover have "\<forall>p. p \<noteq> ''style'' \<longrightarrow> p \<noteq> ''$$$display'' \<longrightarrow> getProp (js y) p = getProp (js x) p"
    using y(8) h(5) by simp
  ultimately show ?thesis using h(1,3) y(1,2,3,5,7) d by auto
qed

lemma hide_after_show:
  assumes "isElement x"
  shows "\<exists>s z. show_js x = Inr s \<and> hide s = Inr z \<and> isElement z \<and> cssDisplay z = cssDisplay x
    \<and> opacityOf z = Inr (Str ''0'') \<and> displayOf z = Inr (Str ''none'')
    \<and> storedDisplay z = Inr (Str (computedDisplay s))
    \<and> (\<forall>p. p \<noteq> ''style'' \<longrightarrow> p \<noteq> ''$$$display'' \<longrightarrow> getProp (js z) p = getProp (js x) p)"
proof -
  from show_ok [OF assms]
  obtain s where s: "show_js x = Inr s" "isElement s" "cssDisplay s = cssDisplay x"
    "\<forall>p. p \<noteq> ''style'' \<longrightarrow> p \<noteq> ''$$$display'' \<longrightarrow> getProp (js s) p = getProp (js x) p"
    by blast
  from hide_ok [OF s(2)]
  obtain z where z: "hide s = Inr z" "isElement z" "cssDisplay z = cssDisplay s"
    "opacityOf z = Inr (Str ''0'')" "displayOf z = Inr (Str ''none'')"
    "storedDisplay z = Inr (Str (computedDisplay s))"
    "\<forall>p. p \<noteq> ''style'' \<longrightarrow> p \<noteq> ''$$$display'' \<longrightarrow> getProp (js z) p = getProp (js s) p"
    by blast
  have "\<forall>p. p \<noteq> ''style'' \<longrightarrow> p \<noteq> ''$$$display'' \<longrightarrow> getProp (js z) p = getProp (js x) p"
    using z(7) s(4) by simp
  then show ?thesis using s(1,3) z(1-6) by auto
qed

section \<open>Properties of the collections\<close>


lemma every_True_iff: "every p xs = Inr True \<longleftrightarrow> (\<forall>x \<in> set xs. p x = Inr True)"
proof (induction xs)
  case Nil
  then show ?case by simp
next
  case (Cons x xs)
  then show ?case
    by (cases "p x") (auto split: if_splits)
qed


lemma matchIt_m_iff:
  "matchIt_m ps e = Inr True \<longleftrightarrow>
     (\<forall>property \<in> set ps. \<exists>x. getValue (js e) (on (fst property)) = Inr x \<and> looseEqStr x (snd property))"
proof -
  have "\<And>property. bindE (getValue (js e) (on (fst property))) (\<lambda>v. Inr (looseEqStr v (snd property))) = Inr True
      \<longleftrightarrow> (\<exists>x. getValue (js e) (on (fst property)) = Inr x \<and> looseEqStr x (snd property))"
    by (case_tac "getValue (js e) (on (fst property))") auto
  then show ?thesis by (simp add: matchIt_m_def every_True_iff)
qed

















lemma mapTest_total:
  "\<forall>i \<in> set arr. \<exists>b. p (st ! i) = Inr b \<Longrightarrow>
   mapTest p arr st = Inr (map (\<lambda>i. p (st ! i) = Inr True) arr)"
  by (induction arr) auto

lemma filter_zip_map: "map fst (filter snd (zip arr (map g arr))) = filter g arr"
  by (induction arr) auto

lemma filter_js_test:
  "\<forall>i \<in> set arr. \<exists>b. p (st ! i) = Inr b \<Longrightarrow>
   filter_js (ElementTest p) arr st = Inr (Elements (filter (\<lambda>i. p (st ! i) = Inr True) arr), st)"
  by (simp add: filter_js_def mapTest_total filter_zip_map)

lemma mapVerb_length: "mapVerb v arr st = Inr st' \<Longrightarrow> length st' = length st"
proof (induction arr arbitrary: st)
  case Nil
  then show ?case by simp
next
  case (Cons i arr)
  then show ?case by (cases "v (st ! i)") auto
qed

text \<open>
  Mapping a verb over an array of distinct references: every element the array refers to
  is replaced by what the verb returns for it, the other elements stay.
\<close>

lemma mapVerb_distinct:
  "distinct arr \<Longrightarrow> \<forall>i \<in> set arr. i < length st \<Longrightarrow> \<forall>i \<in> set arr. \<exists>y. v (st ! i) = Inr y \<Longrightarrow>
   mapVerb v arr st =
     Inr (map (\<lambda>i. if i \<in> set arr then projr (v (st ! i)) else st ! i) [0..<length st])"
proof (induction arr arbitrary: st)
  case Nil
  then show ?case by (simp add: map_nth)
next
  case (Cons a arr)
  from Cons.prems obtain x where x: "v (st ! a) = Inr x" by auto
  let ?st = "st[a := x]"
  have a: "a \<notin> set arr" "a < length st" using Cons.prems by auto
  have same: "\<And>i. i \<in> set arr \<Longrightarrow> ?st ! i = st ! i"
  proof -
    fix i assume "i \<in> set arr"
    with a(1) have "a \<noteq> i" by blast
    then show "?st ! i = st ! i" by (rule nth_list_update_neq)
  qed
  have "mapVerb v arr ?st =
     Inr (map (\<lambda>i. if i \<in> set arr then projr (v (?st ! i)) else ?st ! i) [0..<length ?st])"
  proof (rule Cons.IH)
    show "distinct arr" using Cons.prems by simp
    show "\<forall>i \<in> set arr. i < length ?st" using Cons.prems by simp
    show "\<forall>i \<in> set arr. \<exists>y. v (?st ! i) = Inr y" using Cons.prems same by simp
  qed
  moreover have "map (\<lambda>i. if i \<in> set arr then projr (v (?st ! i)) else ?st ! i) [0..<length ?st]
      = map (\<lambda>i. if i \<in> set (a # arr) then projr (v (st ! i)) else st ! i) [0..<length st]"
    using a x same by (auto simp: nth_list_update)
  ultimately show ?case using x by simp
qed

text \<open>An exception of the function ends \<open>map\<close> and \<open>filter\<close>.\<close>

lemma mapVerb_throws:
  "distinct arr \<Longrightarrow> \<exists>i \<in> set arr. v (st ! i) = Inl TypeError \<Longrightarrow> mapVerb v arr st = Inl TypeError"
proof (induction arr arbitrary: st)
  case Nil
  then show ?case by simp
next
  case (Cons a arr)
  show ?case
  proof (cases "v (st ! a)")
    case (Inl e)
    then show ?thesis by (cases e) simp
  next
    case (Inr x)
    with Cons.prems obtain i where i: "i \<in> set arr" "v (st ! i) = Inl TypeError" by auto
    with Cons.prems have "i \<noteq> a" by auto
    then have "st[a := x] ! i = st ! i" by simp
    with i have "v (st[a := x] ! i) = Inl TypeError" by simp
    with i(1) have "\<exists>i \<in> set arr. v (st[a := x] ! i) = Inl TypeError" by blast
    with Cons.IH [of "st[a := x]"] Cons.prems have "mapVerb v arr (st[a := x]) = Inl TypeError" by simp
    with Inr show ?thesis by simp
  qed
qed

lemma mapTest_throws:
  "\<exists>i \<in> set arr. p (st ! i) = Inl TypeError \<Longrightarrow> mapTest p arr st = Inl TypeError"
proof (induction arr)
  case Nil
  then show ?case by simp
next
  case (Cons a arr)
  show ?case
  proof (cases "p (st ! a)")
    case (Inl e)
    then show ?thesis by (cases e) simp
  next
    case (Inr b)
    with Cons.prems have "\<exists>i \<in> set arr. p (st ! i) = Inl TypeError" by auto
    with Cons.IH have "mapTest p arr st = Inl TypeError" by simp
    with Inr show ?thesis by simp
  qed
qed

lemma then_js_test:
  assumes "name fn \<noteq> ''''" "body fn = ElementTest p" "\<forall>i \<in> set arr. \<exists>b. p (st ! i) = Inr b"
  shows "then_js arr (Func fn) st =
     (if name fn = ''m'' \<or> name fn = ''f''
      then Inr (Elements (filter (\<lambda>i. p (st ! i) = Inr True) arr), st)
      else Inr (Booleans (map (\<lambda>i. p (st ! i) = Inr True) arr), st))"
  using assms(1,2) filter_js_test [OF assms(3)] mapTest_total [OF assms(3)]
  by (simp add: then_js_def map_js_def)

lemma then_js_test_throws:
  assumes "name fn \<noteq> ''''" "body fn = ElementTest p" "\<exists>i \<in> set arr. p (st ! i) = Inl TypeError"
  shows "then_js arr (Func fn) st = Inl TypeError"
  using assms(1,2) mapTest_throws [OF assms(3)]
  by (simp add: then_js_def map_js_def filter_js_def)

lemma then_js_verb:
  assumes "name fn \<noteq> ''''" "body fn = ElementVerb v" "distinct arr" "\<forall>i \<in> set arr. i < length st"
    "\<forall>i \<in> set arr. \<exists>y. v (st ! i) = Inr y"
  shows "then_js arr (Func fn) st =
     Inr (Elements arr, map (\<lambda>i. if i \<in> set arr then projr (v (st ! i)) else st ! i) [0..<length st])"
  using assms(1,2) mapVerb_distinct [OF assms(3,4,5)]
  by (simp add: then_js_def map_js_def filter_js_def)

lemma then_js_verb_throws:
  assumes "name fn \<noteq> ''''" "body fn = ElementVerb v" "distinct arr"
    "\<exists>i \<in> set arr. v (st ! i) = Inl TypeError"
  shows "then_js arr (Func fn) st = Inl TypeError"
  using assms(1,2) mapVerb_throws [OF assms(3,4)]
  by (simp add: then_js_def map_js_def filter_js_def)

lemma prepared_functions:
  "name (find_js obj) = ''f''" "body (find_js obj) = ElementTest (findIt_f obj)"
  "name (match_js obj) = ''m''" "body (match_js obj) = ElementTest (matchIt_m obj)"
  "name (set_js obj) = ''s''" "body (set_js obj) = ElementVerb (setIt_s obj)"
  by (simp_all add: find_js_def match_js_def set_js_def actionMaker_def objToArr_def
      findIt_def matchIt_def setIt_def)

section \<open>Properties of the page links\<close>

subsection \<open>Decimal numerals\<close>

lemma of_char_digit: "d < 10 \<Longrightarrow> (of_char (digit d) :: nat) = 48 + d"
  by (simp add: digit_def)

lemma isDigit_digit: "d < 10 \<Longrightarrow> isDigit (digit d)"
  by (simp add: isDigit_def of_char_digit)

lemma digitVal_digit: "d < 10 \<Longrightarrow> digitVal (digit d) = d"
  by (simp add: digitVal_def of_char_digit)

lemma digitsVal_snoc: "digitsVal (s @ [c]) = 10 * digitsVal s + digitVal c"
  by (simp add: digitsVal_def)

lemma decimal_digits: "list_all isDigit (decimal n)"
proof (induction n rule: decimal.induct)
  case (1 n)
  show ?case
  proof (cases "n < 10")
    case True
    then show ?thesis by (simp add: decimal.simps [of n] isDigit_digit)
  next
    case False
    with "1" show ?thesis by (simp add: decimal.simps [of n] isDigit_digit)
  qed
qed

lemma decimal_nonempty: "decimal n \<noteq> []"
  by (simp add: decimal.simps [of n])

lemma digitsVal_decimal: "digitsVal (decimal n) = n"
proof (induction n rule: decimal.induct)
  case (1 n)
  show ?case
  proof (cases "n < 10")
    case True
    then show ?thesis by (simp add: decimal.simps [of n] digitsVal_def digitVal_digit)
  next
    case False
    with "1" show ?thesis by (simp add: decimal.simps [of n] digitsVal_snoc digitVal_digit)
  qed
qed

lemma isDigit_not_space: "isDigit c \<Longrightarrow> \<not> isSpace c"
  by (auto simp: isDigit_def isSpace_def)

lemma dropWhile_none: "\<forall>c \<in> set s. \<not> P c \<Longrightarrow> dropWhile P s = s"
  by (cases s) auto

lemma trim_digits: "list_all isDigit s \<Longrightarrow> trim s = s"
  by (simp add: trim_def dropWhile_none isDigit_not_space list_all_iff)

lemma strToNumber_decimal: "strToNumber (decimal n) = Some (int n)"
  by (simp add: strToNumber_def trim_digits decimal_digits decimal_nonempty digitsVal_decimal)

lemma isDigit_not_lt: "isDigit c \<Longrightarrow> c \<noteq> CHR ''<''"
  by (auto simp: isDigit_def)

lemma decimal_no_lt: "CHR ''<'' \<notin> set (decimal n)"
  using decimal_digits [of n] isDigit_not_lt by (auto simp: list_all_iff)

subsection \<open>Making the links\<close>

lemma stripPrefix_append: "stripPrefix p (p @ s) = Some s"
  by (induction p) auto

lemma takeWhile_until: "c \<notin> set a \<Longrightarrow> takeWhile (\<lambda>x. x \<noteq> c) (a @ c # b) = a"
  by (induction a) auto

lemma dropWhile_until: "c \<notin> set a \<Longrightarrow> dropWhile (\<lambda>x. x \<noteq> c) (a @ c # b) = c # b"
  by (induction a) auto

lemma parseAnchor_markup:
  assumes "dq \<notin> set className" "CHR ''<'' \<notin> set label"
  shows "parseAnchor (anchorMarkup className label) = Some (className, label)"
proof -
  let ?rest = "'' href='' @ [dq] @ ''#'' @ [dq] @ ''>'' @ label @ ''</a>''"
  have m: "anchorMarkup className label = (''<a class='' @ [dq]) @ (className @ dq # ?rest)"
    by (simp add: anchorMarkup_def)
  have s1: "stripPrefix (''<a class='' @ [dq]) (anchorMarkup className label) = Some (className @ dq # ?rest)"
    unfolding m by (rule stripPrefix_append)
  have t1: "takeWhile (\<lambda>c. c \<noteq> dq) (className @ dq # ?rest) = className"
    using assms(1) by (rule takeWhile_until)
  have d1: "dropWhile (\<lambda>c. c \<noteq> dq) (className @ dq # ?rest) = dq # ?rest"
    using assms(1) by (rule dropWhile_until)
  have "dq # ?rest = ([dq] @ '' href='' @ [dq] @ ''#'' @ [dq] @ ''>'') @ (label @ CHR ''<'' # ''/a>'')"
    by simp
  then have s2: "stripPrefix ([dq] @ '' href='' @ [dq] @ ''#'' @ [dq] @ ''>'') (dq # ?rest) = Some (label @ CHR ''<'' # ''/a>'')"
    by (simp only: stripPrefix_append)
  have t2: "takeWhile (\<lambda>c. c \<noteq> CHR ''<'') (label @ CHR ''<'' # ''/a>'') = label"
    using assms(2) by (rule takeWhile_until)
  have d2: "dropWhile (\<lambda>c. c \<noteq> CHR ''<'') (label @ CHR ''<'' # ''/a>'') = ''</a>''"
    using assms(2) by (rule dropWhile_until)
  show ?thesis
    using s1 d1 s2 t1 t2 d2 by (simp add: parseAnchor_def)
qed

lemma make_ul: "make ''ul'' [(''className'', ''list'')] = Inr listElement"
  by (simp add: make_def createElement_def elementInterface_def objToArr_def on_unfold prop_js_def
      rendered_def parseAnchor_def listElement_def)

lemma make_li:
  assumes "dq \<notin> set className" "CHR ''<'' \<notin> set label"
  shows "make ''li'' [(''innerHTML'', anchorMarkup className label)] = Inr (linkElement className label)"
  using parseAnchor_markup [OF assms]
  by (simp add: make_def createElement_def elementInterface_def objToArr_def on_unfold prop_js_def
      rendered_def linkElement_def)

lemma activeClass_no_dq: "dq \<notin> set (activeClass active i)"
  by (simp add: activeClass_def dq_def)

lemma linkLabel_linkElement: "linkLabel (linkElement className label) = Inr (Str label)"
  by (simp add: linkLabel_def linkElement_def on_unfold replaceAll_def prop_js_def)

lemma linkClass_linkElement: "linkClass (linkElement className label) = Inr (Str className)"
  by (simp add: linkClass_def linkElement_def on_unfold replaceAll_def prop_js_def)

lemma createPageLinks_loop_result:
  assumes "pagination d = Some ((ul, items) # uls)"
  shows "createPageLinks_loop i totalPages active d =
     Inr (d\<lparr>pagination := Some ((ul, items @ map (\<lambda>k. linkElement (activeClass active k) (decimal (k + 1)))
                                             [i..<totalPages]) # uls)\<rparr>)"
  using assms
proof (induction "totalPages - i" arbitrary: i d items)
  case 0
  then show ?case by (simp add: createPageLinks_loop.simps [of i])
next
  case (Suc n)
  then have lt: "i < totalPages" by simp
  let ?li = "linkElement (activeClass active i) (decimal (i + 1))"
  let ?d' = "d\<lparr>pagination := Some ((ul, items @ [?li]) # uls)\<rparr>"
  have mk: "make ''li'' [(''innerHTML'', anchorMarkup (activeClass active i) (decimal (i + 1)))] = Inr ?li"
    by (rule make_li) (simp_all add: activeClass_no_dq decimal_no_lt)
  have ap: "appendTo ''.list'' d ?li = Inr ?d'"
    using Suc.prems by (simp add: appendTo_def)
  have ih: "createPageLinks_loop (i + 1) totalPages active ?d' =
      Inr (?d'\<lparr>pagination := Some ((ul, (items @ [?li]) @ map (\<lambda>k. linkElement (activeClass active k) (decimal (k + 1)))
                                             [i + 1..<totalPages]) # uls)\<rparr>)"
    using Suc.hyps(2) by (intro Suc.hyps(1)) simp_all
  have "[i..<totalPages] = i # [i + 1..<totalPages]"
    using lt by (simp add: upt_conv_Cons)
  then show ?case
    using lt mk ap ih
    by (simp add: createPageLinks_loop.simps [of i] Let_def activeClass_def [symmetric])
qed

lemma createPageLinks_result:
  assumes "pagination d = Some []"
  shows "createPageLinks array active d =
     Inr (d\<lparr>pagination := Some [(listElement,
            map (\<lambda>k. linkElement (activeClass active k) (decimal (k + 1))) [0..<ceil10 (length array)])]\<rparr>)"
proof -
  let ?d1 = "d\<lparr>pagination := Some [(listElement, [])]\<rparr>"
  have ap: "appendTo ''.pagination'' d listElement = Inr ?d1"
    using assms by (simp add: appendTo_def)
  have "createPageLinks_loop 0 (ceil10 (length array)) active ?d1 =
      Inr (?d1\<lparr>pagination := Some ((listElement, [] @ map (\<lambda>k. linkElement (activeClass active k) (decimal (k + 1)))
                                             [0..<ceil10 (length array)]) # [])\<rparr>)"
    by (rule createPageLinks_loop_result) simp
  then show ?thesis
    using ap by (simp add: createPageLinks_def make_ul)
qed

lemma ceil10_eq: "ceil10 n = (n + 9) div 10"
proof -
  have "\<lceil>real n / 10\<rceil> = - (- int n div 10)"
    using ceiling_divide_eq_div [of "int n" 10] by simp
  also have "\<dots> = int ((n + 9) div 10)"
    by (simp add: zdiv_int)
  finally show ?thesis by (simp add: ceil10_def)
qed

subsection \<open>The active link\<close>

lemma isActive_linkElement: "isActive (linkElement className label) \<longleftrightarrow> className = ''active''"
  by (simp add: isActive_def linkClass_linkElement)

lemma activeClass_active: "activeClass active k = ''active'' \<longleftrightarrow> looseEqNum active (int k + 1)"
  by (simp add: activeClass_def)

lemma looseEqNum_unique: "looseEqNum a m \<Longrightarrow> looseEqNum a m' \<Longrightarrow> m = m'"
  by (cases a) auto

lemma filter_upt_single:
  assumes "q < n" "\<forall>k < n. P k \<longleftrightarrow> k = q"
  shows "filter P [0..<n] = [q]"
proof -
  have "[0..<n] = [0..<q] @ q # [Suc q..<n]"
    using assms(1) by (metis le0 less_imp_le_nat upt_add_eq_append upt_conv_Cons le_add_diff_inverse)
  moreover have "filter P [0..<q] = []" using assms by (auto simp: filter_empty_conv)
  moreover have "filter P [Suc q..<n] = []" using assms by (auto simp: filter_empty_conv)
  moreover have "P q" using assms by simp
  ultimately show ?thesis by simp
qed

lemma filter_upt_at_most_one:
  assumes "\<forall>i j. P i \<and> P j \<longrightarrow> i = j"
  shows "length (filter P [0..<n]) \<le> 1"
proof (cases "\<exists>q < n. P q")
  case True
  then obtain q where q: "q < n" "P q" by blast
  with assms have "\<forall>k < n. P k \<longleftrightarrow> k = q" by blast
  with q have "filter P [0..<n] = [q]" by (intro filter_upt_single)
  then show ?thesis by simp
next
  case False
  then have "filter P [0..<n] = []" by (auto simp: filter_empty_conv)
  then show ?thesis by simp
qed

lemma filter_isActive_links:
  "filter isActive (map (\<lambda>k. linkElement (activeClass active k) (decimal (k + 1))) [0..<n]) =
     map (\<lambda>k. linkElement (activeClass active k) (decimal (k + 1)))
       (filter (\<lambda>k. looseEqNum active (int k + 1)) [0..<n])"
  by (simp add: filter_map o_def isActive_linkElement activeClass_active)

lemma looseEqNum_page:
  "active = Num (int p) \<or> active = Str (decimal p) \<Longrightarrow> looseEqNum active (int k + 1) \<longleftrightarrow> p = k + 1"
  by (auto simp: strToNumber_decimal)

section \<open>Properties of the rendering\<close>

lemma on_name_path: "on ''>0>1.innerHTML'' = [''children'', ''0'', ''children'', ''1'', ''innerHTML'']"
  by (simp add: on_unfold replaceAll_def prop_js_def)

lemma nameOf_frame:
  assumes "\<forall>p. p \<noteq> ''style'' \<longrightarrow> p \<noteq> ''$$$display'' \<longrightarrow> getProp (js a) p = getProp (js b) p"
  shows "nameOf a = nameOf b"
proof -
  have "getProp (js a) ''children'' = getProp (js b) ''children''"
    using assms by simp
  then show ?thesis
    unfolding nameOf_def on_name_path by (rule getValue_root_eq)
qed

lemma hidden_not_visible: "hidden e \<Longrightarrow> \<not> visible e"
  by (simp add: hidden_def visible_def)

lemma studentOk_D:
  assumes "studentOk e"
  shows "isElement e" "\<exists>n. nameOf e = Inr (Str n)" "cssDisplay e \<noteq> ''none''"
    "storedDisplay e \<noteq> Inr (Str ''none'')"
  using assms by (auto simp: studentOk_def split: sum.splits jsval.splits)

lemma studentOk_I:
  "isElement e \<Longrightarrow> nameOf e = Inr (Str n) \<Longrightarrow> cssDisplay e \<noteq> ''none'' \<Longrightarrow>
   storedDisplay e \<noteq> Inr (Str ''none'') \<Longrightarrow> studentOk e"
  by (simp add: studentOk_def)

text \<open>What \<open>makePage\<close> does to one item: \<open>show\<close>, \<open>hide\<close>, and for an item of the page \<open>show\<close> again.\<close>

lemma render_item:
  assumes "studentOk e"
  shows "\<exists>s h y. show_js e = Inr s \<and> hide s = Inr h \<and> show_js h = Inr y
    \<and> isElement s \<and> hidden h \<and> visible y \<and> studentOk h \<and> studentOk y
    \<and> nameOf s = nameOf e \<and> nameOf h = nameOf e \<and> nameOf y = nameOf e"
proof -
  from studentOk_D [OF assms] obtain n where e: "isElement e" "nameOf e = Inr (Str n)"
    "cssDisplay e \<noteq> ''none''" "storedDisplay e \<noteq> Inr (Str ''none'')"
    by blast
  from show_ok [OF e(1)]
  obtain s v where s: "show_js e = Inr s" "isElement s" "cssDisplay s = cssDisplay e"
    "storedDisplay e = Inr v" "displayOf s = Inr (if truthy v then v else Str '''')"
    "\<forall>p. p \<noteq> ''style'' \<longrightarrow> p \<noteq> ''$$$display'' \<longrightarrow> getProp (js s) p = getProp (js e) p"
    by blast
  have vn: "v \<noteq> Str ''none''" using s(4) e(4) by simp
  have cs: "computedDisplay s \<noteq> ''none''"
  proof (cases "truthy v")
    case True
    with s(5) have d: "displayOf s = Inr v" by simp
    show ?thesis
    proof (cases v)
      case (Str t)
      with d vn s(3) e(3) show ?thesis by (simp add: computedDisplay_inline)
    qed (use d s(3) e(3) in \<open>simp_all add: computedDisplay_def displayOf_def\<close>)
  next
    case False
    with s(5) have "displayOf s = Inr (Str '''')" by simp
    with s(3) e(3) show ?thesis by (simp add: computedDisplay_inline)
  qed
  have ns: "nameOf s = nameOf e" using s(6) by (rule nameOf_frame)
  from hide_ok [OF s(2)]
  obtain h where h: "hide s = Inr h" "isElement h" "cssDisplay h = cssDisplay s"
    "opacityOf h = Inr (Str ''0'')" "displayOf h = Inr (Str ''none'')"
    "storedDisplay h = Inr (Str (computedDisplay s))"
    "\<forall>p. p \<noteq> ''style'' \<longrightarrow> p \<noteq> ''$$$display'' \<longrightarrow> getProp (js h) p = getProp (js s) p"
    by blast
  have nh: "nameOf h = nameOf e" using nameOf_frame [OF h(7)] ns by simp
  have okh: "studentOk h"
    using h(2) nh e(2) h(3) s(3) e(3) h(6) cs by (intro studentOk_I [of h n]) simp_all
  from show_after_hide [OF s(2)] h(1)
  obtain y where y: "show_js h = Inr y" "isElement y" "cssDisplay y = cssDisplay s"
    "opacityOf y = Inr (Str ''1'')" "storedDisplay y = Inr Undefined"
    "computedDisplay y = computedDisplay s"
    "\<forall>p. p \<noteq> ''style'' \<longrightarrow> p \<noteq> ''$$$display'' \<longrightarrow> getProp (js y) p = getProp (js s) p"
    by auto
  have ny: "nameOf y = nameOf e" using nameOf_frame [OF y(7)] ns by simp
  have oky: "studentOk y"
    using y(2) ny e(2) y(3) s(3) e(3) y(5) by (intro studentOk_I [of y n]) simp_all
  have "hidden h" using h(4,5) by (simp add: hidden_def)
  moreover have "visible y" using y(4,6) cs by (simp add: visible_def)
  ultimately show ?thesis using s(1,2) h(1) y(1) okh oky ns nh ny by blast
qed

subsection \<open>Mapping and filtering over the store\<close>

lemma mapVerb_ok:
  assumes "distinct refs" "\<forall>i \<in> set refs. i < length st" "\<forall>i \<in> set refs. \<exists>x. v (st ! i) = Inr x"
  shows "\<exists>st'. mapVerb v refs st = Inr st' \<and> length st' = length st
     \<and> (\<forall>j < length st. st' ! j = (if j \<in> set refs then projr (v (st ! j)) else st ! j))"
  using assms
proof (induction refs arbitrary: st)
  case Nil
  then show ?case by simp
next
  case (Cons i refs)
  from Cons.prems obtain x where x: "v (st ! i) = Inr x" by auto
  let ?st = "st[i := x]"
  have i: "i \<notin> set refs" "i < length st" using Cons.prems by auto
  have same: "\<forall>j \<in> set refs. ?st ! j = st ! j" using i by (auto simp: nth_list_update)
  have "distinct refs" "\<forall>j \<in> set refs. j < length ?st" "\<forall>j \<in> set refs. \<exists>y. v (?st ! j) = Inr y"
    using Cons.prems same by auto
  from Cons.IH [OF this]
  obtain st' where st': "mapVerb v refs ?st = Inr st'" "length st' = length ?st"
    "\<forall>j < length ?st. st' ! j = (if j \<in> set refs then projr (v (?st ! j)) else ?st ! j)"
    by blast
  have "\<forall>j < length st. st' ! j = (if j \<in> set (i # refs) then projr (v (st ! j)) else st ! j)"
  proof (intro allI impI)
    fix j assume j: "j < length st"
    show "st' ! j = (if j \<in> set (i # refs) then projr (v (st ! j)) else st ! j)"
    proof (cases "j = i")
      case True
      with st'(3) j i x show ?thesis by simp
    next
      case False
      with st'(3) j show ?thesis by simp
    qed
  qed
  with st'(1,2) x show ?case by simp
qed

lemma upt_distinct_range: "distinct [0..<n] \<and> (\<forall>i \<in> set [0..<n]. i < n)"
  by simp

lemma slice_js_nat:
  "slice_js xs (Some (int a)) (Some (int b)) =
     take (min b (length xs) - min a (length xs)) (drop (min a (length xs)) xs)"
proof -
  have k: "min (int a) (int (length xs)) = int (min a (length xs))" by simp
  have f: "min (int b) (int (length xs)) = int (min b (length xs))" by simp
  have d: "nat (int (min b (length xs)) - int (min a (length xs))) = min b (length xs) - min a (length xs)"
    by simp
  show ?thesis
    unfolding slice_js_def Let_def option.case k f
    by (simp only: of_nat_less_0_iff if_False d nat_int)
qed

lemma slice_js_page:
  assumes "1 \<le> p"
  shows "slice_js xs (Some ((int p - 1) * 10)) (Some (int p * 10)) = take 10 (drop ((p - 1) * 10) xs)"
proof -
  have a: "(int p - 1) * 10 = int ((p - 1) * 10)" using assms by (simp add: of_nat_diff)
  have b: "int p * 10 = int ((p - 1) * 10 + 10)" using assms by (simp add: of_nat_diff)
  have "slice_js xs (Some ((int p - 1) * 10)) (Some (int p * 10)) =
      take (min ((p - 1) * 10 + 10) (length xs) - min ((p - 1) * 10) (length xs))
        (drop (min ((p - 1) * 10) (length xs)) xs)"
    unfolding a b by (rule slice_js_nat)
  also have "\<dots> = take 10 (drop ((p - 1) * 10) xs)"
  proof (cases "(p - 1) * 10 \<le> length xs")
    case True
    then show ?thesis by (auto simp: min_def intro: take_all)
  next
    case False
    then show ?thesis by (simp add: min_def)
  qed
  finally show ?thesis .
qed

lemma sublist_positions:
  assumes "sl = take k (drop m (filter P [0..<n]))"
  shows "filter (\<lambda>i. i \<in> set sl) [0..<n] = sl"
proof -
  have s1: "sorted (filter (\<lambda>i. i \<in> set sl) [0..<n])" by (simp add: sorted_wrt_filter)
  have d1: "distinct (filter (\<lambda>i. i \<in> set sl) [0..<n])" by simp
  have "sorted (filter P [0..<n])" by (simp add: sorted_wrt_filter)
  then have s2: "sorted sl" unfolding assms by (intro sorted_wrt_take sorted_wrt_drop)
  have d2: "distinct sl" unfolding assms by (intro distinct_take distinct_drop) simp
  have "set sl \<subseteq> set (filter P [0..<n])"
    unfolding assms by (meson set_take_subset set_drop_subset subset_trans)
  then have "set (filter (\<lambda>i. i \<in> set sl) [0..<n]) = set sl" by auto
  with s1 d1 s2 d2 show ?thesis by (intro sorted_distinct_set_unique)
qed

lemma findIt_name:
  "nameOf e = Inr (Str n) \<Longrightarrow> findIt_f [(''>0>1.innerHTML'', q)] e = Inr (includes_js n q)"
  by (simp add: findIt_f_def nameOf_def)

lemma toNumber_page: "page = Num (int p) \<or> page = Str (decimal p) \<Longrightarrow> toNumber page = Some (int p)"
  by (auto simp: strToNumber_decimal)

lemma createPageLinks_students:
  assumes "pagination d = Some uls"
  shows "\<exists>d'. createPageLinks array active d = Inr d' \<and> students d' = students d"
proof (cases uls)
  case Nil
  with assms show ?thesis by (simp add: createPageLinks_result)
next
  case (Cons u rest)
  obtain ul items where u: "u = (ul, items)" by (cases u)
  let ?d1 = "d\<lparr>pagination := Some ((ul, items) # rest @ [(listElement, [])])\<rparr>"
  have ap: "appendTo ''.pagination'' d listElement = Inr ?d1"
    using assms Cons u by (simp add: appendTo_def)
  have "createPageLinks_loop 0 (ceil10 (length array)) active ?d1 =
      Inr (?d1\<lparr>pagination := Some ((ul, items @ map (\<lambda>k. linkElement (activeClass active k) (decimal (k + 1)))
                                             [0..<ceil10 (length array)]) # rest @ [(listElement, [])])\<rparr>)"
    by (rule createPageLinks_loop_result) simp
  then show ?thesis
    using ap by (simp add: createPageLinks_def make_ul)
qed

lemma makePage_result:
  assumes ok: "\<forall>e \<in> set (students d). studentOk e"
    and pag: "pagination d = Some uls"
    and page: "page = Num (int p) \<or> page = Str (decimal p)"
    and p: "1 \<le> p"
  shows "\<exists>d'. makePage q page d = Inr d'
     \<and> length (students d') = length (students d)
     \<and> (\<forall>i < length (students d).
          if i \<in> set (take 10 (drop ((p - 1) * 10) (matchedItems q (students d))))
          then visible (students d' ! i) else hidden (students d' ! i))
     \<and> (\<forall>i < length (students d). studentOk (students d' ! i)
          \<and> nameOf (students d' ! i) = nameOf (students d ! i))
     \<and> createPageLinks (matchedItems q (students d)) page (d\<lparr>students := students d'\<rparr>) = Inr d'"
proof -
  let ?st0 = "students d"
  let ?n = "length ?st0"
  let ?S = "\<lambda>i. projr (show_js (?st0 ! i))"
  let ?H = "\<lambda>i. projr (hide (?S i))"
  let ?Y = "\<lambda>i. projr (show_js (?H i))"
  let ?key = "''>0>1.innerHTML''"
  have item: "\<forall>i < ?n. show_js (?st0 ! i) = Inr (?S i) \<and> hide (?S i) = Inr (?H i)
      \<and> show_js (?H i) = Inr (?Y i) \<and> hidden (?H i) \<and> visible (?Y i)
      \<and> studentOk (?H i) \<and> studentOk (?Y i)
      \<and> nameOf (?H i) = nameOf (?st0 ! i) \<and> nameOf (?Y i) = nameOf (?st0 ! i)"
  proof (intro allI impI)
    fix i assume "i < ?n"
    then have "studentOk (?st0 ! i)" using ok by simp
    from render_item [OF this]
    obtain s h y where "show_js (?st0 ! i) = Inr s" "hide s = Inr h" "show_js h = Inr y"
      "hidden h" "visible y" "studentOk h" "studentOk y"
      "nameOf h = nameOf (?st0 ! i)" "nameOf y = nameOf (?st0 ! i)"
      by blast
    then show "show_js (?st0 ! i) = Inr (?S i) \<and> hide (?S i) = Inr (?H i)
      \<and> show_js (?H i) = Inr (?Y i) \<and> hidden (?H i) \<and> visible (?Y i)
      \<and> studentOk (?H i) \<and> studentOk (?Y i)
      \<and> nameOf (?H i) = nameOf (?st0 ! i) \<and> nameOf (?Y i) = nameOf (?st0 ! i)"
      by simp
  qed
  \<comment> \<open>all items are shown\<close>
  have "\<exists>st'. mapVerb show_js [0..<?n] ?st0 = Inr st' \<and> length st' = length ?st0
     \<and> (\<forall>j < length ?st0. st' ! j = (if j \<in> set [0..<?n] then projr (show_js (?st0 ! j)) else ?st0 ! j))"
    using item by (intro mapVerb_ok) auto
  then obtain st1 where st1: "mapVerb show_js [0..<?n] ?st0 = Inr st1" "length st1 = ?n"
    "\<forall>j < ?n. st1 ! j = ?S j"
    by auto
  have t1: "then_js (select_all ?st0) (Func show_fn) ?st0 = Inr (Elements [0..<?n], st1)"
    using st1(1) by (simp add: then_js_def select_all_def show_fn_def map_js_def)
  \<comment> \<open>all items are hidden\<close>
  have "\<exists>st'. mapVerb hide [0..<?n] st1 = Inr st' \<and> length st' = length st1
     \<and> (\<forall>j < length st1. st' ! j = (if j \<in> set [0..<?n] then projr (hide (st1 ! j)) else st1 ! j))"
    using item st1(2,3) by (intro mapVerb_ok) auto
  then obtain st2 where st2: "mapVerb hide [0..<?n] st1 = Inr st2" "length st2 = ?n"
    "\<forall>j < ?n. st2 ! j = ?H j"
    using st1(2,3) by auto
  have t2: "then_js [0..<?n] (Func hide_fn) st1 = Inr (Elements [0..<?n], st2)"
    using st2(1) by (simp add: then_js_def hide_fn_def map_js_def)
  \<comment> \<open>the items whose name contains the query are found\<close>
  have found: "\<forall>i < ?n. findIt_f [(?key, q)] (st2 ! i) =
      Inr (case nameOf (?st0 ! i) of Inr (Str n) \<Rightarrow> includes_js n q | _ \<Rightarrow> False)"
  proof (intro allI impI)
    fix i assume i: "i < ?n"
    then have "studentOk (?st0 ! i)" using ok by simp
    then obtain n where n: "nameOf (?st0 ! i) = Inr (Str n)" using studentOk_D(2) by blast
    then have "nameOf (st2 ! i) = Inr (Str n)" using item st2(3) i by simp
    then show "findIt_f [(?key, q)] (st2 ! i) =
      Inr (case nameOf (?st0 ! i) of Inr (Str n) \<Rightarrow> includes_js n q | _ \<Rightarrow> False)"
      using n by (simp add: findIt_name)
  qed
  let ?array = "matchedItems q ?st0"
  have "filter_js (ElementTest (findIt_f [(?key, q)])) [0..<?n] st2 =
      Inr (Elements (filter (\<lambda>i. findIt_f [(?key, q)] (st2 ! i) = Inr True) [0..<?n]), st2)"
    using found by (intro filter_js_test) simp
  moreover have "filter (\<lambda>i. findIt_f [(?key, q)] (st2 ! i) = Inr True) [0..<?n] = ?array"
    unfolding matchedItems_def using found by (intro filter_cong) simp_all
  ultimately have t3: "then_js [0..<?n] (Func (find_js [(?key, q)])) st2 = Inr (Elements ?array, st2)"
    by (simp add: then_js_def find_js_def actionMaker_def objToArr_def findIt_def)
  \<comment> \<open>the window of the page is cut out\<close>
  let ?sl = "take 10 (drop ((p - 1) * 10) ?array)"
  have num: "toNumber page = Some (int p)" using page by (rule toNumber_page)
  have t4: "then_js ?array (Slice (Some ((int p - 1) * 10)) (Some (int p * 10))) st2 = Inr (Elements ?sl, st2)"
    using slice_js_page [OF p(1), of ?array] by (simp only: then_js_def action.case)
  \<comment> \<open>and shown\<close>
  have sub: "set ?sl \<subseteq> {0..<?n}"
  proof -
    have "set ?sl \<subseteq> set ?array"
      by (meson set_take_subset set_drop_subset subset_trans)
    then show ?thesis by (auto simp: matchedItems_def)
  qed
  have dsl: "distinct ?sl"
    by (intro distinct_take distinct_drop) (simp add: matchedItems_def)
  have "\<exists>st'. mapVerb show_js ?sl st2 = Inr st' \<and> length st' = length st2
     \<and> (\<forall>j < length st2. st' ! j = (if j \<in> set ?sl then projr (show_js (st2 ! j)) else st2 ! j))"
  proof (intro mapVerb_ok dsl ballI)
    fix i assume "i \<in> set ?sl"
    then have i: "i < ?n" using sub by auto
    then show "i < length st2" using st2(2) by simp
    from i have "st2 ! i = ?H i" using st2(3) by blast
    moreover from i have "show_js (?H i) = Inr (?Y i)" using item by blast
    ultimately show "\<exists>x. show_js (st2 ! i) = Inr x" by metis
  qed
  then obtain st5 where st5: "mapVerb show_js ?sl st2 = Inr st5" "length st5 = ?n"
    "\<forall>j < ?n. st5 ! j = (if j \<in> set ?sl then ?Y j else ?H j)"
    using st2(2,3) by auto
  have t5: "then_js ?sl (Func show_fn) st2 = Inr (Elements ?sl, st5)"
    using st5(1) by (simp add: then_js_def show_fn_def map_js_def)
  \<comment> \<open>the links are made\<close>
  let ?d5 = "d\<lparr>students := st5\<rparr>"
  have "pagination ?d5 = Some uls" using pag by simp
  from createPageLinks_students [OF this, of ?array page]
  obtain d' where d': "createPageLinks ?array page ?d5 = Inr d'" "students d' = st5"
    by auto
  have run: "makePage q page d = Inr d'"
    using t1 t2 t3 t4 t5 d'(1) num by (simp add: makePage_def)
  have vis: "\<forall>i < ?n. if i \<in> set ?sl then visible (students d' ! i) else hidden (students d' ! i)"
    using item st5(3) d'(2) by simp
  have inv: "\<forall>i < ?n. studentOk (students d' ! i) \<and> nameOf (students d' ! i) = nameOf (?st0 ! i)"
    using item st5(3) d'(2) by simp
  have links: "createPageLinks ?array page (d\<lparr>students := students d'\<rparr>) = Inr d'"
    using d' by simp
  from run st5(2) d'(2) vis inv links show ?thesis by auto
qed

text \<open>
  Rendering keeps one list in the container: \<open>makePage\<close> on a document without a list
  leaves the list of the links of the matched items, and \<open>pageEvent\<close> removes that list
  before it renders again.
\<close>

lemma makePage_links:
  assumes "\<forall>e \<in> set (students d). studentOk e"
    and "pagination d = Some []"
    and "page = Num (int p) \<or> page = Str (decimal p)"
    and "1 \<le> p"
  shows "\<exists>d'. makePage q page d = Inr d'
     \<and> pagination d' = Some [(listElement,
          map (\<lambda>k. linkElement (activeClass page k) (decimal (k + 1)))
            [0..<ceil10 (length (matchedItems q (students d)))])]"
proof -
  from makePage_result [OF assms, of q]
  obtain d' where d': "makePage q page d = Inr d'"
    "createPageLinks (matchedItems q (students d)) page (d\<lparr>students := students d'\<rparr>) = Inr d'"
    by blast
  let ?links = "map (\<lambda>k. linkElement (activeClass page k) (decimal (k + 1)))
            [0..<ceil10 (length (matchedItems q (students d)))]"
  let ?x = "d\<lparr>students := students d'\<rparr>\<lparr>pagination := Some [(listElement, ?links)]\<rparr>"
  have "pagination (d\<lparr>students := students d'\<rparr>) = Some []" using assms(2) by simp
  then have "createPageLinks (matchedItems q (students d)) page (d\<lparr>students := students d'\<rparr>) = Inr ?x"
    by (rule createPageLinks_result)
  with d'(2) have "Inr d' = (Inr ?x :: error + doc)" by (simp only:)
  then have "d' = ?x" by (simp only: sum.inject)
  then have "pagination d' = pagination ?x" by (rule arg_cong)
  then have "pagination d' = Some [(listElement, ?links)]" by simp
  with d'(1) show ?thesis by blast
qed

subsection \<open>A click on a page link\<close>

text \<open>
  A click on the list item of a link removes the first list and renders the page whose
  number is the text of the link, a string, with the query of the search box.
\<close>

lemma pageEvent_link:
  assumes "pagination d = Some ((ul, links) # uls)"
  shows "pageEvent (linkElement className label) d =
     bindE (getQuery (d\<lparr>pagination := Some uls\<rparr>))
       (\<lambda>query. makePage query (Str label) (d\<lparr>pagination := Some uls\<rparr>))"
proof -
  have "getProp (js (linkElement className label)) ''id'' = Inr (Str '''')"
    by (simp add: linkElement_def)
  moreover have "getValue (js (linkElement className label)) (on ''>0.innerHTML'') = Inr (Str label)"
    using linkLabel_linkElement [of className label] by (simp add: linkLabel_def)
  ultimately show ?thesis
    using assms by (simp add: pageEvent_def)
qed

lemma getQuery_no_box: "search d = None \<Longrightarrow> getQuery d = Inr ''''"
  by (simp add: getQuery_def trim_def toLowerCase_def)

section \<open>The claims\<close>

text \<open>
  C1. Let every student item of the document be fit to render (\<open>studentOk\<close>), let the
  document have its pagination container, and let the page be \<open>p \<ge> 1\<close>, given as the
  number or as the numeral read from a link. Then for every query \<open>q\<close>, \<open>makePage(q, p)\<close>
  returns, and afterwards the visible student items are, in document order, exactly
  the items \<open>(p - 1) * 10 .. p * 10 - 1\<close> of the items whose name contains \<open>q\<close> as a substring
  (compared character by character, so with case); every other student item is hidden
  (display \<open>none\<close>, opacity \<open>0\<close>); the names are unchanged and the items are fit to render
  again. The upper bound on \<open>p\<close> is not needed: beyond the last page the window is empty.
\<close>

theorem makePage_visible_window:
  assumes "\<forall>e \<in> set (students d). studentOk e"
    and "pagination d = Some uls"
    and "page = Num (int p) \<or> page = Str (decimal p)"
    and "1 \<le> p"
  shows "\<exists>d'. makePage q page d = Inr d'
     \<and> length (students d') = length (students d)
     \<and> filter (\<lambda>i. visible (students d' ! i)) [0..<length (students d)] =
         take 10 (drop ((p - 1) * 10) (matchedItems q (students d)))
     \<and> (\<forall>i < length (students d).
          i \<notin> set (take 10 (drop ((p - 1) * 10) (matchedItems q (students d)))) \<longrightarrow>
          hidden (students d' ! i))
     \<and> (\<forall>i < length (students d). nameOf (students d' ! i) = nameOf (students d ! i))
     \<and> (\<forall>e \<in> set (students d'). studentOk e)"
proof -
  let ?n = "length (students d)"
  let ?sl = "take 10 (drop ((p - 1) * 10) (matchedItems q (students d)))"
  from makePage_result [OF assms, of q]
  obtain d' where d': "makePage q page d = Inr d'" "length (students d') = ?n"
    "\<forall>i < ?n. if i \<in> set ?sl then visible (students d' ! i) else hidden (students d' ! i)"
    "\<forall>i < ?n. studentOk (students d' ! i) \<and> nameOf (students d' ! i) = nameOf (students d ! i)"
    by blast
  have "filter (\<lambda>i. visible (students d' ! i)) [0..<?n] = filter (\<lambda>i. i \<in> set ?sl) [0..<?n]"
  proof (rule filter_cong [OF refl])
    fix i assume "i \<in> set [0..<?n]"
    then have i: "i < ?n" by simp
    show "visible (students d' ! i) \<longleftrightarrow> i \<in> set ?sl"
    proof (cases "i \<in> set ?sl")
      case True
      with d'(3) i show ?thesis by auto
    next
      case False
      with d'(3) i have "hidden (students d' ! i)" by auto
      with False show ?thesis by (simp add: hidden_not_visible)
    qed
  qed
  also have "\<dots> = ?sl"
    unfolding matchedItems_def by (rule sublist_positions) (rule refl)
  finally have vis: "filter (\<lambda>i. visible (students d' ! i)) [0..<?n] = ?sl" .
  have hid: "\<forall>i < ?n. i \<notin> set ?sl \<longrightarrow> hidden (students d' ! i)"
    using d'(3) by auto
  have nm: "\<forall>i < ?n. nameOf (students d' ! i) = nameOf (students d ! i)"
    using d'(4) by simp
  have inv: "\<forall>e \<in> set (students d'). studentOk e"
    using d'(2,4) by (auto simp: in_set_conv_nth)
  from d'(1,2) vis hid nm inv show ?thesis by blast
qed

theorem makePage_visible_window_witness:
  "list_all studentOk (students twelveStudents)
   \<and> pagination twelveStudents = Some []
   \<and> matchedItems '''' (students twelveStudents) = [0, 1, 2, 3, 4, 5, 6, 7, 8, 9, 10, 11]
   \<and> (\<exists>d'. makePage '''' (Num 2) twelveStudents = Inr d'
         \<and> filter (\<lambda>i. visible (students d' ! i)) [0..<12] = [10, 11])"
proof -
  have ok1: "\<And>nm. studentOk (studentItem nm)"
    by (simp add: studentOk_def isElement_def nameOf_def storedDisplay_def on_name_path studentItem_def)
  have ok: "\<forall>e \<in> set (students twelveStudents). studentOk e"
    using ok1 by (auto simp: twelveStudents_def)
  have pg: "pagination twelveStudents = Some []"
    by (simp add: twelveStudents_def)
  have len: "length (students twelveStudents) = 12"
    by (simp add: twelveStudents_def)
  have m: "matchedItems '''' (students twelveStudents) = [0, 1, 2, 3, 4, 5, 6, 7, 8, 9, 10, 11]"
    by code_simp
  have pn: "Num 2 = Num (int 2) \<or> Num 2 = Str (decimal 2)" by simp
  from makePage_visible_window [OF ok pg pn, of "''''"]
  obtain d' where "makePage '''' (Num 2) twelveStudents = Inr d'"
    "filter (\<lambda>i. visible (students d' ! i)) [0..<length (students twelveStudents)] =
       take 10 (drop ((2 - 1) * 10) (matchedItems '''' (students twelveStudents)))"
    by auto
  then have "\<exists>d'. makePage '''' (Num 2) twelveStudents = Inr d'
         \<and> filter (\<lambda>i. visible (students d' ! i)) [0..<12] = [10, 11]"
    unfolding m len by auto
  with ok pg m show ?thesis by (simp add: list_all_iff)
qed

text \<open>
  C2. For every matched array, \<open>createPageLinks\<close>, run on a document that has its
  pagination container, renders exactly \<open>ceil(matchCount / 10)\<close> links, labelled with the
  numerals of \<open>1\<close> to that number in order; for an empty array it renders no link. The
  links go into the first list of the container: the new list when the container held
  none (as at the start and after \<open>pageEvent\<close> has removed the list), else the list that
  was there first.
\<close>

theorem createPageLinks_count:
  assumes "pagination d = Some uls"
  shows "\<exists>links. createPageLinks array active d =
        Inr (d\<lparr>pagination := Some (case uls of
               [] \<Rightarrow> [(listElement, links)]
             | (ul, items) # rest \<Rightarrow> (ul, items @ links) # rest @ [(listElement, [])])\<rparr>)
     \<and> length links = ceil10 (length array)
     \<and> ceil10 (length array) = (length array + 9) div 10
     \<and> map linkLabel links = map (\<lambda>k. Inr (Str (decimal k))) [1..<ceil10 (length array) + 1]
     \<and> (array = [] \<longrightarrow> links = [])"
proof -
  let ?n = "ceil10 (length array)"
  let ?links = "map (\<lambda>k. linkElement (activeClass active k) (decimal (k + 1))) [0..<?n]"
  have r: "createPageLinks array active d =
        Inr (d\<lparr>pagination := Some (case uls of
               [] \<Rightarrow> [(listElement, ?links)]
             | (ul, items) # rest \<Rightarrow> (ul, items @ ?links) # rest @ [(listElement, [])])\<rparr>)"
  proof (cases uls)
    case Nil
    with assms show ?thesis by (simp add: createPageLinks_result)
  next
    case (Cons u rest)
    obtain ul items where u: "u = (ul, items)" by (cases u)
    let ?d1 = "d\<lparr>pagination := Some ((ul, items) # rest @ [(listElement, [])])\<rparr>"
    have ap: "appendTo ''.pagination'' d listElement = Inr ?d1"
      using assms Cons u by (simp add: appendTo_def)
    have "createPageLinks_loop 0 ?n active ?d1 =
        Inr (?d1\<lparr>pagination := Some ((ul, items @ ?links) # rest @ [(listElement, [])])\<rparr>)"
      by (rule createPageLinks_loop_result) simp
    then show ?thesis
      using ap Cons u by (simp add: createPageLinks_def make_ul)
  qed
  have "[1..<?n + 1] = map Suc [0..<?n]"
    by (simp add: map_Suc_upt)
  then have l: "map linkLabel ?links = map (\<lambda>k. Inr (Str (decimal k))) [1..<?n + 1]"
    by (simp add: linkLabel_linkElement o_def)
  have z: "array = [] \<longrightarrow> ?links = []"
    by (simp add: ceil10_eq)
  from r l z show ?thesis
    using ceil10_eq [of "length array"] by (intro exI [of _ ?links]) simp
qed

theorem createPageLinks_count_witness:
  "pagination \<lparr>students = [], pagination = Some [], search = None\<rparr> = Some []
   \<and> (\<exists>links.
         createPageLinks [0..<25] (Num 1) \<lparr>students = [], pagination = Some [], search = None\<rparr>
           = Inr \<lparr>students = [], pagination = Some [(listElement, links)], search = None\<rparr>
         \<and> length links = 3
         \<and> map linkLabel links = [Inr (Str ''1''), Inr (Str ''2''), Inr (Str ''3'')])
   \<and> createPageLinks [] (Num 1) \<lparr>students = [], pagination = Some [], search = None\<rparr>
         = Inr \<lparr>students = [], pagination = Some [(listElement, [])], search = None\<rparr>"
proof -
  let ?d = "\<lparr>students = [], pagination = Some [], search = None\<rparr>"
  have p: "pagination ?d = Some []" by simp
  have dec: "decimal 1 = ''1''" "decimal 2 = ''2''" "decimal 3 = ''3''"
    by code_simp+
  have c: "ceil10 (length [0..<25]) = 3" by (simp add: ceil10_eq)
  have u: "[1..<3 + 1] = [1, 2, 3::nat]" by code_simp
  have m: "map (\<lambda>k. Inr (Str (decimal k))) [1..<ceil10 (length [0..<25]) + 1]
      = [Inr (Str ''1''), Inr (Str ''2''), Inr (Str ''3'') :: error + jsval]"
    by (simp only: c u list.map dec)
  from createPageLinks_count [OF p, of "[0..<25]" "Num 1"]
  obtain links where l: "createPageLinks [0..<25] (Num 1) ?d = Inr (?d\<lparr>pagination := Some [(listElement, links)]\<rparr>)"
      "length links = ceil10 (length [0..<25])"
      "map linkLabel links = map (\<lambda>k. Inr (Str (decimal k))) [1..<ceil10 (length [0..<25]) + 1]"
    by auto
  have a: "\<exists>links. createPageLinks [0..<25] (Num 1) ?d = Inr \<lparr>students = [], pagination = Some [(listElement, links)], search = None\<rparr>
         \<and> length links = 3
         \<and> map linkLabel links = [Inr (Str ''1''), Inr (Str ''2''), Inr (Str ''3'')]"
    using l(1) l(2) [unfolded c] l(3) [unfolded m] by auto
  from createPageLinks_count [OF p, of "[]" "Num 1"]
  have b: "createPageLinks [] (Num 1) ?d = Inr \<lparr>students = [], pagination = Some [(listElement, [])], search = None\<rparr>"
    by auto
  from p a b show ?thesis by blast
qed

text \<open>
  C3. After \<open>createPageLinks\<close> with the active page \<open>active\<close>, on a document whose
  pagination container holds no list yet, at most one link carries the class \<open>active\<close>,
  whatever \<open>active\<close> is; and when \<open>active\<close> is a page \<open>p\<close> between \<open>1\<close> and the number of pages,
  given as the number or as the numeral that \<open>pageEvent\<close> reads from the text of a
  clicked link (\<open>linkLabel\<close>), exactly the link \<open>p\<close> carries it, and its label is the numeral
  of \<open>p\<close>.
\<close>

theorem createPageLinks_active:
  assumes "pagination d = Some []"
  shows "\<exists>ul links. createPageLinks array active d = Inr (d\<lparr>pagination := Some [(ul, links)]\<rparr>)
     \<and> length (filter isActive links) \<le> 1
     \<and> (\<forall>p. 1 \<le> p \<and> p \<le> ceil10 (length array) \<and> (active = Num (int p) \<or> active = Str (decimal p)) \<longrightarrow>
           filter isActive links = [links ! (p - 1)]
           \<and> linkLabel (links ! (p - 1)) = Inr (Str (decimal p)))"
proof -
  let ?n = "ceil10 (length array)"
  let ?L = "\<lambda>k. linkElement (activeClass active k) (decimal (k + 1))"
  let ?links = "map ?L [0..<?n]"
  have r: "createPageLinks array active d = Inr (d\<lparr>pagination := Some [(listElement, ?links)]\<rparr>)"
    using assms by (rule createPageLinks_result)
  have one: "length (filter isActive ?links) \<le> 1"
  proof -
    have "\<forall>i j. looseEqNum active (int i + 1) \<and> looseEqNum active (int j + 1) \<longrightarrow> i = j"
    proof (intro allI impI)
      fix i j :: nat
      assume "looseEqNum active (int i + 1) \<and> looseEqNum active (int j + 1)"
      then have "int i + 1 = int j + 1" using looseEqNum_unique by blast
      then show "i = j" by simp
    qed
    then have "length (filter (\<lambda>k. looseEqNum active (int k + 1)) [0..<?n]) \<le> 1"
      by (rule filter_upt_at_most_one)
    then show ?thesis by (simp only: filter_isActive_links length_map)
  qed
  have page: "\<forall>p. 1 \<le> p \<and> p \<le> ?n \<and> (active = Num (int p) \<or> active = Str (decimal p)) \<longrightarrow>
           filter isActive ?links = [?links ! (p - 1)]
           \<and> linkLabel (?links ! (p - 1)) = Inr (Str (decimal p))"
  proof (intro allI impI)
    fix p
    assume h: "1 \<le> p \<and> p \<le> ?n \<and> (active = Num (int p) \<or> active = Str (decimal p))"
    then have q: "p - 1 < ?n" by arith
    have "\<forall>k < ?n. looseEqNum active (int k + 1) \<longleftrightarrow> k = p - 1"
    proof (intro allI impI)
      fix k
      have "looseEqNum active (int k + 1) \<longleftrightarrow> p = k + 1"
        using h by (intro looseEqNum_page) blast
      also have "p = k + 1 \<longleftrightarrow> k = p - 1" using h by arith
      finally show "looseEqNum active (int k + 1) \<longleftrightarrow> k = p - 1" .
    qed
    with q have "filter (\<lambda>k. looseEqNum active (int k + 1)) [0..<?n] = [p - 1]"
      by (intro filter_upt_single)
    then have f: "filter isActive ?links = [?L (p - 1)]"
      by (simp only: filter_isActive_links list.map)
    have n: "?links ! (p - 1) = ?L (p - 1)"
      using q by simp
    have "linkLabel (?L (p - 1)) = Inr (Str (decimal p))"
      using h by (simp add: linkLabel_linkElement)
    with f n show "filter isActive ?links = [?links ! (p - 1)]
           \<and> linkLabel (?links ! (p - 1)) = Inr (Str (decimal p))"
      by simp
  qed
  from r one page show ?thesis
    by (intro exI [of _ listElement] exI [of _ ?links]) simp
qed

theorem createPageLinks_active_witness:
  "pagination \<lparr>students = [], pagination = Some [], search = None\<rparr> = Some []
   \<and> (\<exists>ul links.
         createPageLinks [0..<25] (Str ''2'') \<lparr>students = [], pagination = Some [], search = None\<rparr>
           = Inr \<lparr>students = [], pagination = Some [(ul, links)], search = None\<rparr>
         \<and> length (filter isActive links) \<le> 1
         \<and> filter isActive links = [links ! 1]
         \<and> linkLabel (links ! 1) = Inr (Str ''2''))"
proof -
  let ?d = "\<lparr>students = [], pagination = Some [], search = None\<rparr>"
  have p: "pagination ?d = Some []" by simp
  have dec: "decimal 2 = ''2''"
    by code_simp
  have c: "ceil10 25 = 3" by (simp add: ceil10_eq)
  from createPageLinks_active [OF p, of "[0..<25]" "Str ''2''"]
  obtain ul links where l: "createPageLinks [0..<25] (Str ''2'') ?d = Inr (?d\<lparr>pagination := Some [(ul, links)]\<rparr>)"
     "length (filter isActive links) \<le> 1"
     "\<forall>p. 1 \<le> p \<and> p \<le> ceil10 (length [0..<25]) \<and> (Str ''2'' = Num (int p) \<or> Str ''2'' = Str (decimal p)) \<longrightarrow>
           filter isActive links = [links ! (p - 1)]
           \<and> linkLabel (links ! (p - 1)) = Inr (Str (decimal p))"
    by blast
  from l(3) [rule_format, of 2] have "filter isActive links = [links ! 1] \<and> linkLabel (links ! 1) = Inr (Str ''2'')"
    by (simp add: c dec)
  with l(1,2) p show ?thesis by auto
qed

text \<open>
  C4, as amended. For every element \<open>x\<close>, \<open>show(hide(x))\<close> leaves \<open>x\<close> with opacity \<open>1\<close> and
  with the inline display set to the computed display it had before, so the computed
  display is restored, and the opacity is restored exactly when it was \<open>1\<close>;
  \<open>hide(show(x))\<close> leaves \<open>x\<close> with opacity \<open>0\<close> and display \<open>none\<close>, so it restores opacity
  and display exactly when \<open>x\<close> was hidden in that way before.
\<close>

theorem show_hide_round_trips:
  assumes "isElement x"
  shows "(\<exists>y. bindE (hide x) show_js = Inr y \<and> computedDisplay y = computedDisplay x
            \<and> displayOf y = Inr (Str (computedDisplay x)) \<and> opacityOf y = Inr (Str ''1'')
            \<and> (opacityOf y = opacityOf x \<longleftrightarrow> opacityOf x = Inr (Str ''1'')))
       \<and> (\<exists>z. bindE (show_js x) hide = Inr z
            \<and> opacityOf z = Inr (Str ''0'') \<and> displayOf z = Inr (Str ''none'')
            \<and> (opacityOf z = opacityOf x \<and> displayOf z = displayOf x \<longleftrightarrow>
                 opacityOf x = Inr (Str ''0'') \<and> displayOf x = Inr (Str ''none'')))"
proof
  from show_after_hide [OF assms]
  obtain h y where "hide x = Inr h" "show_js h = Inr y"
    "opacityOf y = Inr (Str ''1'')" "displayOf y = Inr (Str (computedDisplay x))"
    "computedDisplay y = computedDisplay x"
    by blast
  then show "\<exists>y. bindE (hide x) show_js = Inr y \<and> computedDisplay y = computedDisplay x
            \<and> displayOf y = Inr (Str (computedDisplay x)) \<and> opacityOf y = Inr (Str ''1'')
            \<and> (opacityOf y = opacityOf x \<longleftrightarrow> opacityOf x = Inr (Str ''1''))"
    by auto
next
  from hide_after_show [OF assms]
  obtain s z where "show_js x = Inr s" "hide s = Inr z"
    "opacityOf z = Inr (Str ''0'')" "displayOf z = Inr (Str ''none'')"
    by blast
  then show "\<exists>z. bindE (show_js x) hide = Inr z
            \<and> opacityOf z = Inr (Str ''0'') \<and> displayOf z = Inr (Str ''none'')
            \<and> (opacityOf z = opacityOf x \<and> displayOf z = displayOf x \<longleftrightarrow>
                 opacityOf x = Inr (Str ''0'') \<and> displayOf x = Inr (Str ''none''))"
    by auto
qed

theorem show_hide_round_trips_witness:
  "isElement (studentItem ''Ann'')
   \<and> computedDisplay (studentItem ''Ann'') = ''block''
   \<and> bindE (bindE (hide (studentItem ''Ann'')) show_js) displayOf = Inr (Str ''block'')
   \<and> bindE (bindE (hide (studentItem ''Ann'')) show_js) opacityOf = Inr (Str ''1'')
   \<and> bindE (bindE (show_js (studentItem ''Ann'')) hide) opacityOf = Inr (Str ''0'')
   \<and> bindE (bindE (show_js (studentItem ''Ann'')) hide) displayOf = Inr (Str ''none'')"
proof -
  have el: "isElement (studentItem ''Ann'')"
    by (simp add: isElement_def studentItem_def)
  have cd: "computedDisplay (studentItem ''Ann'') = ''block''"
    by (simp add: computedDisplay_def studentItem_def)
  from show_hide_round_trips [OF el] cd show ?thesis
    using el by auto
qed

text \<open>
  C4 as it is stated fails on a student item of the host page, which carries no inline
  style and is displayed as a block: after \<open>hide(show(x))\<close> its display is \<open>none\<close>, inline
  and computed, and its opacity is \<open>0\<close>; after \<open>show(hide(x))\<close> its opacity is \<open>1\<close> and not
  the empty string it was.
\<close>

theorem hide_show_round_trip_counterexample:
  "displayOf (studentItem ''Ann'') = Inr (Str '''')
   \<and> computedDisplay (studentItem ''Ann'') = ''block''
   \<and> opacityOf (studentItem ''Ann'') = Inr (Str '''')
   \<and> bindE (bindE (show_js (studentItem ''Ann'')) hide) displayOf = Inr (Str ''none'')
   \<and> map_sum id computedDisplay (bindE (show_js (studentItem ''Ann'')) hide) = Inr ''none''
   \<and> bindE (bindE (show_js (studentItem ''Ann'')) hide) opacityOf = Inr (Str ''0'')
   \<and> bindE (bindE (hide (studentItem ''Ann'')) show_js) opacityOf = Inr (Str ''1'')"
  by (simp add: studentItem_def displayOf_def opacityOf_def hide_def show_js_def setStyle_def
      computedDisplay_def)






text \<open>
  C7, as amended. The two alias rewrites exclude each other, the child rewrite winning.
  A selector with a leading \<open>.\<close> and no \<open>>\<close> resolves to the key \<open>style\<close> followed by the keys
  of the rest; a selector with a \<open>>\<close> resolves to the keys of its pieces between the \<open>>\<close>,
  with the key \<open>children\<close> in the place of every \<open>>\<close> (and no \<open>style\<close> key for a leading
  \<open>.\<close>); no key of a resolved path is empty.
\<close>

theorem on_alias_paths:
  "(CHR ''>'' \<notin> set s \<longrightarrow> on (CHR ''.'' # s) = ''style'' # prop_js s)
   \<and> (CHR ''>'' \<in> set t \<longrightarrow>
        on t = (case split CHR ''>'' t of [] \<Rightarrow> []
                | seg # rest \<Rightarrow> prop_js seg @ concat (map (\<lambda>r. ''children'' # prop_js r) rest)))
   \<and> '''' \<notin> set (on u)"
proof -
  have "CHR ''>'' \<notin> set s \<longrightarrow> on (CHR ''.'' # s) = ''style'' # prop_js s"
    using prop_js_style [of s] by (simp add: on_unfold)
  moreover have "CHR ''>'' \<in> set t \<longrightarrow>
        on t = (case split CHR ''>'' t of [] \<Rightarrow> []
                | seg # rest \<Rightarrow> prop_js seg @ concat (map (\<lambda>r. ''children'' # prop_js r) rest))"
    by (simp add: on_unfold prop_js_replaceAll)
  moreover have "'''' \<notin> set (on u)"
    by (simp add: on_unfold prop_js_def)
  ultimately show ?thesis by blast
qed

theorem on_alias_paths_witness:
  "on ''.backgroundColor'' = [''style'', ''backgroundColor'']
   \<and> on ''>0>1.innerHTML'' = [''children'', ''0'', ''children'', ''1'', ''innerHTML'']
   \<and> '''' \<notin> set (on ''a..b'')"
  using on_alias_paths [of "''backgroundColor''" "''>0>1.innerHTML''" "''a..b''"]
  by (simp add: prop_js_def)

text \<open>
  C7 as it is stated fails: a selector with a leading \<open>.\<close> that also holds a \<open>>\<close> gets the
  child rewrite only, and its path has no \<open>style\<close> key.
\<close>

theorem on_style_child_counterexample:
  "on ''.a>0'' = [''a'', ''children'', ''0''] \<and> ''style'' \<notin> set (on ''.a>0'')"
  by (simp add: on_unfold replaceAll_def prop_js_def)

text \<open>
  C8. For every element array and every function with a name that is handed to \<open>then\<close>,
  the array is filtered when the name is \<open>m\<close> or \<open>f\<close> and mapped for every other name. The
  difference shows on a test, a function that answers with a boolean and changes nothing:
  under the names \<open>m\<close> and \<open>f\<close> the result is the array of the elements for which the test
  holds, in their order, and under any other name it is the array of the booleans the
  test answers, one for each element; the store is left alone. A verb, which changes the
  element it is given and returns it, is applied to every element the array refers to:
  the result is the array of the same elements, and in the store every one of them is
  replaced by what the verb returns for it while the other elements stay (under the names
  \<open>m\<close> and \<open>f\<close> too, as an element is truthy). An exception of the function on one of the
  elements ends the operation. \<open>find\<close> and \<open>match\<close> return tests named \<open>f\<close> and \<open>m\<close>, so they
  filter the array; \<open>set\<close> returns a verb named \<open>s\<close>, so it maps it. An element array refers
  to elements of the store, each of them once.
\<close>

theorem then_dispatch:
  assumes "name fn \<noteq> ''''"
  shows
  "(body fn = ElementTest p \<and> (\<forall>i \<in> set arr. \<exists>b. p (st ! i) = Inr b) \<longrightarrow>
      then_js arr (Func fn) st =
        (if name fn = ''m'' \<or> name fn = ''f''
         then Inr (Elements (filter (\<lambda>i. p (st ! i) = Inr True) arr), st)
         else Inr (Booleans (map (\<lambda>i. p (st ! i) = Inr True) arr), st)))
   \<and> (body fn = ElementTest p \<and> (\<exists>i \<in> set arr. p (st ! i) = Inl TypeError) \<longrightarrow>
        then_js arr (Func fn) st = Inl TypeError)
   \<and> (body fn = ElementVerb v \<and> distinct arr \<and> (\<forall>i \<in> set arr. i < length st)
        \<and> (\<forall>i \<in> set arr. \<exists>y. v (st ! i) = Inr y) \<longrightarrow>
        then_js arr (Func fn) st =
          Inr (Elements arr,
               map (\<lambda>i. if i \<in> set arr then projr (v (st ! i)) else st ! i) [0..<length st]))
   \<and> (body fn = ElementVerb v \<and> distinct arr \<and> (\<exists>i \<in> set arr. v (st ! i) = Inl TypeError) \<longrightarrow>
        then_js arr (Func fn) st = Inl TypeError)
   \<and> ((\<forall>i \<in> set arr. \<exists>b. findIt_f obj (st ! i) = Inr b) \<longrightarrow>
        then_js arr (Func (find_js obj)) st =
          Inr (Elements (filter (\<lambda>i. findIt_f obj (st ! i) = Inr True) arr), st))
   \<and> ((\<forall>i \<in> set arr. \<exists>b. matchIt_m obj (st ! i) = Inr b) \<longrightarrow>
        then_js arr (Func (match_js obj)) st =
          Inr (Elements (filter (\<lambda>i. matchIt_m obj (st ! i) = Inr True) arr), st))
   \<and> (distinct arr \<and> (\<forall>i \<in> set arr. i < length st)
        \<and> (\<forall>i \<in> set arr. \<exists>y. setIt_s obj (st ! i) = Inr y) \<longrightarrow>
        then_js arr (Func (set_js obj)) st =
          Inr (Elements arr,
               map (\<lambda>i. if i \<in> set arr then projr (setIt_s obj (st ! i)) else st ! i) [0..<length st]))"
proof -
  have t: "body fn = ElementTest p \<and> (\<forall>i \<in> set arr. \<exists>b. p (st ! i) = Inr b) \<longrightarrow>
      then_js arr (Func fn) st =
        (if name fn = ''m'' \<or> name fn = ''f''
         then Inr (Elements (filter (\<lambda>i. p (st ! i) = Inr True) arr), st)
         else Inr (Booleans (map (\<lambda>i. p (st ! i) = Inr True) arr), st))"
    using then_js_test [OF assms, of p arr st] by blast
  have tt: "body fn = ElementTest p \<and> (\<exists>i \<in> set arr. p (st ! i) = Inl TypeError) \<longrightarrow>
        then_js arr (Func fn) st = Inl TypeError"
    using then_js_test_throws [OF assms, of p arr st] by blast
  have v: "body fn = ElementVerb v \<and> distinct arr \<and> (\<forall>i \<in> set arr. i < length st)
        \<and> (\<forall>i \<in> set arr. \<exists>y. v (st ! i) = Inr y) \<longrightarrow>
        then_js arr (Func fn) st =
          Inr (Elements arr,
               map (\<lambda>i. if i \<in> set arr then projr (v (st ! i)) else st ! i) [0..<length st])"
    using then_js_verb [OF assms, of v arr st] by blast
  have vt: "body fn = ElementVerb v \<and> distinct arr \<and> (\<exists>i \<in> set arr. v (st ! i) = Inl TypeError) \<longrightarrow>
        then_js arr (Func fn) st = Inl TypeError"
    using then_js_verb_throws [OF assms, of v arr st] by blast
  have f: "(\<forall>i \<in> set arr. \<exists>b. findIt_f obj (st ! i) = Inr b) \<longrightarrow>
        then_js arr (Func (find_js obj)) st =
          Inr (Elements (filter (\<lambda>i. findIt_f obj (st ! i) = Inr True) arr), st)"
    using then_js_test [of "find_js obj" "findIt_f obj" arr st]
    by (simp add: prepared_functions)
  have m: "(\<forall>i \<in> set arr. \<exists>b. matchIt_m obj (st ! i) = Inr b) \<longrightarrow>
        then_js arr (Func (match_js obj)) st =
          Inr (Elements (filter (\<lambda>i. matchIt_m obj (st ! i) = Inr True) arr), st)"
    using then_js_test [of "match_js obj" "matchIt_m obj" arr st]
    by (simp add: prepared_functions)
  have s: "distinct arr \<and> (\<forall>i \<in> set arr. i < length st)
        \<and> (\<forall>i \<in> set arr. \<exists>y. setIt_s obj (st ! i) = Inr y) \<longrightarrow>
        then_js arr (Func (set_js obj)) st =
          Inr (Elements arr,
               map (\<lambda>i. if i \<in> set arr then projr (setIt_s obj (st ! i)) else st ! i) [0..<length st])"
    using then_js_verb [of "set_js obj" "setIt_s obj" arr st]
    by (simp add: prepared_functions)
  from t tt v vt f m s show ?thesis by (intro conjI)
qed

theorem then_dispatch_witness:
  "then_js [0, 1] (Func (find_js [(''>0>1.innerHTML'', ''nn'')])) [studentItem ''Ann'', studentItem ''Bob'']
     = Inr (Elements [0], [studentItem ''Ann'', studentItem ''Bob''])
   \<and> then_js [0, 1] (Func \<lparr>name = ''g'', body = ElementTest (findIt_f [(''>0>1.innerHTML'', ''nn'')])\<rparr>)
       [studentItem ''Ann'', studentItem ''Bob'']
     = Inr (Booleans [True, False], [studentItem ''Ann'', studentItem ''Bob''])
   \<and> then_js [0, 1] (Func (find_js [(''nickname'', ''cf'')])) [studentItem ''Ann'', studentItem ''Bob'']
     = Inl TypeError
   \<and> then_js [0, 1] (Func (match_js [(''>0>1.innerHTML'', ''Bob'')])) [studentItem ''Ann'', studentItem ''Bob'']
     = Inr (Elements [1], [studentItem ''Ann'', studentItem ''Bob''])
   \<and> map_sum id (\<lambda>(t, st'). (t, map displayOf st'))
        (then_js [1] (Func hide_fn) [studentItem ''Ann'', studentItem ''Bob''])
     = Inr (Elements [1], [Inr (Str ''''), Inr (Str ''none'')])
   \<and> then_js [0] (Func hide_fn) [\<lparr>js = Null, cssDisplay = ''block''\<rparr>] = Inl TypeError
   \<and> map_sum id (\<lambda>(t, st'). (t, map (\<lambda>e. getValue (js e) [''className'']) st'))
        (then_js [0, 1] (Func (set_js [(''className'', ''match'')])) [studentItem ''Ann'', studentItem ''Bob''])
     = Inr (Elements [0, 1], [Inr (Str ''match''), Inr (Str ''match'')])"
proof -
  let ?st = "[studentItem ''Ann'', studentItem ''Bob'']"
  let ?f = "findIt_f [(''>0>1.innerHTML'', ''nn'')]"
  let ?n = "findIt_f [(''nickname'', ''cf'')]"
  let ?m = "matchIt_m [(''>0>1.innerHTML'', ''Bob'')]"
  let ?s = "setIt_s [(''className'', ''match'')]"
  let ?g = "\<lparr>name = ''g'', body = ElementTest ?f\<rparr>"
  let ?bad = "[\<lparr>js = Null, cssDisplay = ''block''\<rparr>]"
  have fa: "?f (studentItem ''Ann'') = Inr True" and fb: "?f (studentItem ''Bob'') = Inr False"
    by (simp_all add: findIt_f_def on_unfold replaceAll_def prop_js_def studentItem_def)
  have na: "?n (studentItem ''Ann'') = Inl TypeError"
    by (simp add: findIt_f_def on_unfold prop_js_def studentItem_def)
  have ma: "?m (studentItem ''Ann'') = Inr False" and mb: "?m (studentItem ''Bob'') = Inr True"
    by (simp_all add: matchIt_m_def on_unfold replaceAll_def prop_js_def studentItem_def)
  have hb: "displayOf (projr (hide (studentItem ''Bob''))) = Inr (Str ''none'')"
    and hb': "\<exists>y. hide (studentItem ''Bob'') = Inr y"
    and da: "displayOf (studentItem ''Ann'') = Inr (Str '''')"
    by (simp_all add: hide_def setStyle_def computedDisplay_def displayOf_def studentItem_def)
  have bad: "hide \<lparr>js = Null, cssDisplay = ''block''\<rparr> = Inl TypeError"
    by (simp add: hide_def setStyle_def)
  have sa: "\<exists>y. ?s (studentItem ''Ann'') = Inr y"
    "getValue (js (projr (?s (studentItem ''Ann'')))) [''className''] = Inr (Str ''match'')"
    and sb: "\<exists>y. ?s (studentItem ''Bob'') = Inr y"
    "getValue (js (projr (?s (studentItem ''Bob'')))) [''className''] = Inr (Str ''match'')"
    by (simp_all add: on_unfold prop_js_def studentItem_def)
  have nm: "name (find_js [(''>0>1.innerHTML'', ''nn'')]) \<noteq> ''''" "name ?g \<noteq> ''''"
    "name (find_js [(''nickname'', ''cf'')]) \<noteq> ''''" "name hide_fn \<noteq> ''''"
    by (simp_all add: prepared_functions hide_fn_def)
  have ftot: "\<forall>i \<in> set [0, 1]. \<exists>b. ?f (?st ! i) = Inr b" using fa fb by auto
  have mtot: "\<forall>i \<in> set [0, 1]. \<exists>b. ?m (?st ! i) = Inr b" using ma mb by auto
  have nthr: "\<exists>i \<in> set [0, 1]. ?n (?st ! i) = Inl TypeError" using na by simp
  have htot: "distinct [1::nat] \<and> (\<forall>i \<in> set [1]. i < length ?st) \<and> (\<forall>i \<in> set [1]. \<exists>y. hide (?st ! i) = Inr y)"
    using hb' by simp
  have hthr: "distinct [0::nat] \<and> (\<exists>i \<in> set [0]. hide (?bad ! i) = Inl TypeError)"
    using bad by simp
  have stot: "distinct [0, 1::nat] \<and> (\<forall>i \<in> set [0, 1]. i < length ?st)
      \<and> (\<forall>i \<in> set [0, 1]. \<exists>y. ?s (?st ! i) = Inr y)"
    using sa(1) sb(1) by simp
  note find = then_dispatch [OF nm(1), of ?f "[0, 1]" ?st hide "[(''>0>1.innerHTML'', ''nn'')]",
      THEN conjunct2, THEN conjunct2, THEN conjunct2, THEN conjunct2, THEN conjunct1, THEN mp, OF ftot]
  note other = then_dispatch [OF nm(2), of ?f "[0, 1]" ?st hide "[]", THEN conjunct1, THEN mp]
  note throw = then_dispatch [OF nm(3), of ?n "[0, 1]" ?st hide "[]", THEN conjunct2, THEN conjunct1, THEN mp]
  note match = then_dispatch [OF nm(4), of ?f "[0, 1]" ?st hide "[(''>0>1.innerHTML'', ''Bob'')]",
      THEN conjunct2, THEN conjunct2, THEN conjunct2, THEN conjunct2, THEN conjunct2, THEN conjunct1,
      THEN mp, OF mtot]
  note verb = then_dispatch [OF nm(4), of ?f "[1]" ?st hide "[]",
      THEN conjunct2, THEN conjunct2, THEN conjunct1, THEN mp]
  note vthrow = then_dispatch [OF nm(4), of ?f "[0]" ?bad hide "[]",
      THEN conjunct2, THEN conjunct2, THEN conjunct2, THEN conjunct1, THEN mp]
  note setv = then_dispatch [OF nm(4), of ?f "[0, 1]" ?st hide "[(''className'', ''match'')]",
      THEN conjunct2, THEN conjunct2, THEN conjunct2, THEN conjunct2, THEN conjunct2, THEN conjunct2,
      THEN mp, OF stot]
  have c1: "then_js [0, 1] (Func (find_js [(''>0>1.innerHTML'', ''nn'')])) ?st = Inr (Elements [0], ?st)"
    using find fa fb by simp
  have c2: "then_js [0, 1] (Func ?g) ?st = Inr (Booleans [True, False], ?st)"
    using other [OF conjI [OF _ ftot]] fa fb by simp
  have c3: "then_js [0, 1] (Func (find_js [(''nickname'', ''cf'')])) ?st = Inl TypeError"
    using throw [OF conjI [OF prepared_functions(2) nthr]] .
  have c4: "then_js [0, 1] (Func (match_js [(''>0>1.innerHTML'', ''Bob'')])) ?st = Inr (Elements [1], ?st)"
    using match ma mb by simp
  have hbody: "body hide_fn = ElementVerb hide" by (simp add: hide_fn_def)
  have c5: "then_js [1] (Func hide_fn) ?st = Inr (Elements [1], [studentItem ''Ann'', projr (hide (studentItem ''Bob''))])"
    using verb [OF conjI [OF hbody htot]] by simp
  have c6: "then_js [0] (Func hide_fn) ?bad = Inl TypeError"
    using vthrow [OF conjI [OF hbody hthr]] .
  have c7: "then_js [0, 1] (Func (set_js [(''className'', ''match'')])) ?st
      = Inr (Elements [0, 1], [projr (?s (studentItem ''Ann'')), projr (?s (studentItem ''Bob''))])"
    using setv by simp
  show ?thesis
    unfolding c1 c2 c3 c4 c5 c6 c7 using hb da sa(2) sb(2) by (simp del: setIt_s.simps)
qed




text \<open>
  C10. \<open>hide\<close> is not idempotent in what it stores: for every element whose computed
  display is not \<open>none\<close>, the first \<open>hide\<close> stores that display, the second \<open>hide\<close> overwrites
  it with \<open>none\<close>, and the \<open>show\<close> that follows sets the display to \<open>none\<close>: the element stays
  hidden.
\<close>

theorem hide_twice_then_show:
  assumes "isElement x" "computedDisplay x \<noteq> ''none''"
  shows "\<exists>h1 h2 s. hide x = Inr h1 \<and> storedDisplay h1 = Inr (Str (computedDisplay x))
           \<and> hide h1 = Inr h2 \<and> storedDisplay h2 = Inr (Str ''none'')
           \<and> show_js h2 = Inr s \<and> displayOf s = Inr (Str ''none'') \<and> computedDisplay s = ''none''"
proof -
  from hide_ok [OF assms(1)]
  obtain h1 where h1: "hide x = Inr h1" "isElement h1"
    "displayOf h1 = Inr (Str ''none'')" "storedDisplay h1 = Inr (Str (computedDisplay x))"
    by blast
  have c1: "computedDisplay h1 = ''none''"
    using computedDisplay_inline [OF h1(3)] by simp
  from show_after_hide [OF h1(2)]
  obtain h2 s where s: "hide h1 = Inr h2" "show_js h2 = Inr s"
    "displayOf s = Inr (Str (computedDisplay h1))" "computedDisplay s = computedDisplay h1"
    by blast
  from hide_ok [OF h1(2)] s(1)
  have h2: "storedDisplay h2 = Inr (Str (computedDisplay h1))"
    by auto
  from s h2 h1 c1 show ?thesis by auto
qed

theorem hide_twice_then_show_witness:
  "isElement (studentItem ''Ann'') \<and> computedDisplay (studentItem ''Ann'') \<noteq> ''none''
   \<and> bindE (hide (studentItem ''Ann'')) storedDisplay = Inr (Str ''block'')
   \<and> bindE (bindE (hide (studentItem ''Ann'')) hide) storedDisplay = Inr (Str ''none'')
   \<and> bindE (bindE (bindE (hide (studentItem ''Ann'')) hide) show_js) displayOf = Inr (Str ''none'')"
proof -
  have el: "isElement (studentItem ''Ann'')"
    by (simp add: isElement_def studentItem_def)
  have cd: "computedDisplay (studentItem ''Ann'') = ''block''"
    by (simp add: computedDisplay_def studentItem_def)
  then have ne: "computedDisplay (studentItem ''Ann'') \<noteq> ''none''" by simp
  from hide_twice_then_show [OF el ne] cd show ?thesis
    using el by auto
qed

end
